theory Spec2Isabelle
  imports Complex_Main "HOL-Library.Word"
begin

unbundle bit_operations_syntax

section \<open>Values exchanged with the object store\<close>

text \<open>
  The program is \<^verbatim>\<open>checksum_boto.py\<close>: it lists the keys of a bucket, and for each key
  without a sibling \<^verbatim>\<open>.md5\<close> object it downloads the object, hashes it with MD5 and
  uploads the digest. The store client (boto3), the retry decorator (tenacity), the hash
  object (hashlib) and the progress bar (tqdm) are libraries; each is modelled by what the
  program observes of it.

  Keys, bodies and log messages are Python \<^verbatim>\<open>str\<close> values, modelled as \<^typ>\<open>string\<close>;
  object contents are \<^verbatim>\<open>bytes\<close>, modelled as lists of 8-bit words.
\<close>

type_synonym byte = "8 word"
type_synonym u32 = "32 word"

text \<open>
  Exceptions are values. \<^verbatim>\<open>botocore.exceptions.ClientError\<close> carries the error code of
  the response (\<^verbatim>\<open>e.response['Error']['Code']\<close>) and the text of its message;
  \<open>OtherError\<close> stands for every other class below \<^verbatim>\<open>Exception\<close> (connection errors,
  read time-outs, \<^verbatim>\<open>KeyError\<close>, ...); \<open>RetryError\<close> is \<^verbatim>\<open>tenacity.RetryError\<close>, which
  wraps the outcome of the last attempt; \<open>OtherBaseException\<close> stands for the classes
  that derive from \<^verbatim>\<open>BaseException\<close> but not from \<^verbatim>\<open>Exception\<close>
  (\<^verbatim>\<open>KeyboardInterrupt\<close>, \<^verbatim>\<open>SystemExit\<close>), with the name of the class.
  \<open>is_Exception e\<close> is \<^verbatim>\<open>isinstance(e, Exception)\<close>.
\<close>

datatype exn =
    ClientError (error_code: string) (error_text: string)
  | OtherError string
  | RetryError exn
  | OtherBaseException string

fun is_Exception :: "exn \<Rightarrow> bool" where
  "is_Exception (OtherBaseException name) = False"
| "is_Exception e = True"

text \<open>
  The body of a \<^verbatim>\<open>get_object\<close> response is a stream. \<open>pending\<close> holds the data still
  to come, in the pieces in which the transport delivers it; once they are consumed the
  stream either reports end of file (\<open>failure = None\<close>) or raises (\<open>failure = Some e\<close>).
  \<^verbatim>\<open>read(n)\<close> returns at most \<open>n\<close> bytes of the next non-empty piece, and the empty
  byte string only at end of file.
\<close>

record stream =
  pending :: "byte list list"
  failure :: "exn option"

record response =
  Body :: stream
  ContentLength :: int

fun read_pieces :: "nat \<Rightarrow> byte list list \<Rightarrow> byte list \<times> byte list list" where
  "read_pieces n [] = ([], [])"
| "read_pieces n (p # ps) =
     (if p = [] then read_pieces n ps
      else if length p \<le> n then (p, ps)
      else (take n p, drop n p # ps))"

definition stream_read :: "stream \<Rightarrow> nat \<Rightarrow> (exn + byte list) \<times> stream" where
  "stream_read st n =
     (case read_pieces n (pending st) of
        (chunk, rest) \<Rightarrow>
          (if chunk = [] then (case failure st of None \<Rightarrow> Inr [] | Some e \<Rightarrow> Inl e)
           else Inr chunk,
           st\<lparr>pending := rest\<rparr>))"

definition stream_content :: "stream \<Rightarrow> byte list" where
  "stream_content st = concat (pending st)"

section \<open>MD5\<close>

text \<open>
  \<^verbatim>\<open>hashlib.md5\<close> is the MD5 of RFC 1321. \<open>md5_ref\<close> is the one-shot reference: pad
  the whole message, cut it into 64-byte blocks, fold the compression function over
  them, print the four registers in hexadecimal.
\<close>

definition md5_K :: "u32 list" where
  "md5_K =
    [0xd76aa478, 0xe8c7b756, 0x242070db, 0xc1bdceee,
     0xf57c0faf, 0x4787c62a, 0xa8304613, 0xfd469501,
     0x698098d8, 0x8b44f7af, 0xffff5bb1, 0x895cd7be,
     0x6b901122, 0xfd987193, 0xa679438e, 0x49b40821,
     0xf61e2562, 0xc040b340, 0x265e5a51, 0xe9b6c7aa,
     0xd62f105d, 0x02441453, 0xd8a1e681, 0xe7d3fbc8,
     0x21e1cde6, 0xc33707d6, 0xf4d50d87, 0x455a14ed,
     0xa9e3e905, 0xfcefa3f8, 0x676f02d9, 0x8d2a4c8a,
     0xfffa3942, 0x8771f681, 0x6d9d6122, 0xfde5380c,
     0xa4beea44, 0x4bdecfa9, 0xf6bb4b60, 0xbebfbc70,
     0x289b7ec6, 0xeaa127fa, 0xd4ef3085, 0x04881d05,
     0xd9d4d039, 0xe6db99e5, 0x1fa27cf8, 0xc4ac5665,
     0xf4292244, 0x432aff97, 0xab9423a7, 0xfc93a039,
     0x655b59c3, 0x8f0ccc92, 0xffeff47d, 0x85845dd1,
     0x6fa87e4f, 0xfe2ce6e0, 0xa3014314, 0x4e0811a1,
     0xf7537e82, 0xbd3af235, 0x2ad7d2bb, 0xeb86d391]"

definition md5_S :: "nat list" where
  "md5_S =
    [7, 12, 17, 22, 7, 12, 17, 22, 7, 12, 17, 22, 7, 12, 17, 22,
     5, 9, 14, 20, 5, 9, 14, 20, 5, 9, 14, 20, 5, 9, 14, 20,
     4, 11, 16, 23, 4, 11, 16, 23, 4, 11, 16, 23, 4, 11, 16, 23,
     6, 10, 15, 21, 6, 10, 15, 21, 6, 10, 15, 21, 6, 10, 15, 21]"

type_synonym md5_regs = "u32 \<times> u32 \<times> u32 \<times> u32"

definition md5_iv :: md5_regs where
  "md5_iv = (0x67452301, 0xefcdab89, 0x98badcfe, 0x10325476)"

definition le32 :: "byte list \<Rightarrow> u32" where
  "le32 bs = foldr (\<lambda>b acc. push_bit 8 acc OR ucast b) (take 4 bs) 0"

definition md5_words :: "byte list \<Rightarrow> u32 list" where
  "md5_words block = map (\<lambda>i. le32 (drop (4 * i) block)) [0..<16]"

definition md5_step :: "u32 list \<Rightarrow> md5_regs \<Rightarrow> nat \<Rightarrow> md5_regs" where
  "md5_step m r i =
     (case r of (a, b, c, d) \<Rightarrow>
        let (f, g) =
              (if i < 16 then ((b AND c) OR (NOT b AND d), i)
               else if i < 32 then ((d AND b) OR (NOT d AND c), (5 * i + 1) mod 16)
               else if i < 48 then (b XOR c XOR d, (3 * i + 5) mod 16)
               else (c XOR (b OR NOT d), (7 * i) mod 16));
            f' = f + a + md5_K ! i + m ! g
        in (d, b + word_rotl (md5_S ! i) f', b, c))"

definition md5_compress :: "md5_regs \<Rightarrow> byte list \<Rightarrow> md5_regs" where
  "md5_compress r block =
     (case r of (a0, b0, c0, d0) \<Rightarrow>
        case foldl (md5_step (md5_words block)) r [0..<64] of
          (a, b, c, d) \<Rightarrow> (a0 + a, b0 + b, c0 + c, d0 + d))"

definition le_bytes :: "nat \<Rightarrow> 'a::len word \<Rightarrow> byte list" where
  "le_bytes k w = map (\<lambda>i. ucast (drop_bit (8 * i) w)) [0..<k]"

text \<open>The padding: a one bit, zeros up to 56 modulo 64, the bit length in 64 bits.\<close>

definition md5_padding :: "nat \<Rightarrow> byte list" where
  "md5_padding len =
     0x80 # replicate ((55 + 64 - len mod 64) mod 64) 0 @ le_bytes 8 (of_nat (8 * len) :: 64 word)"

function blocks64 :: "byte list \<Rightarrow> byte list list" where
  "blocks64 bs = (if 64 \<le> length bs then take 64 bs # blocks64 (drop 64 bs) else [])"
  by pat_completeness auto
termination
  by (relation "measure length") auto

declare blocks64.simps [simp del]

definition hexdigit :: "nat \<Rightarrow> char" where
  "hexdigit n = ''0123456789abcdef'' ! (n mod 16)"

definition hex_of_bytes :: "byte list \<Rightarrow> string" where
  "hex_of_bytes bs = concat (map (\<lambda>b. [hexdigit (unat b div 16), hexdigit (unat b)]) bs)"

definition md5_output :: "md5_regs \<Rightarrow> byte list" where
  "md5_output r = (case r of (a, b, c, d) \<Rightarrow> concat (map (le_bytes 4) [a, b, c, d]))"

definition md5_ref :: "byte list \<Rightarrow> string" where
  "md5_ref msg =
     hex_of_bytes (md5_output (foldl md5_compress md5_iv (blocks64 (msg @ md5_padding (length msg)))))"

text \<open>
  The hash object of \<^verbatim>\<open>hashlib\<close> is incremental: it keeps the registers, the bytes of
  the block not yet complete, and the number of bytes seen. \<^verbatim>\<open>update\<close> compresses every
  block that becomes complete; \<^verbatim>\<open>hexdigest\<close> pads what is left.
\<close>

record md5_obj =
  regs :: md5_regs
  buffer :: "byte list"
  count :: nat

function md5_absorb :: "md5_regs \<Rightarrow> byte list \<Rightarrow> md5_regs \<times> byte list" where
  "md5_absorb r bs =
     (if 64 \<le> length bs then md5_absorb (md5_compress r (take 64 bs)) (drop 64 bs)
      else (r, bs))"
  by pat_completeness auto
termination
  by (relation "measure (\<lambda>(r, bs). length bs)") auto

declare md5_absorb.simps [simp del]

definition md5_new :: md5_obj where
  "md5_new = \<lparr>regs = md5_iv, buffer = [], count = 0\<rparr>"

definition md5_update :: "md5_obj \<Rightarrow> byte list \<Rightarrow> md5_obj" where
  "md5_update h data =
     (case md5_absorb (regs h) (buffer h @ data) of
        (r, rest) \<Rightarrow> \<lparr>regs = r, buffer = rest, count = count h + length data\<rparr>)"

definition md5_hexdigest :: "md5_obj \<Rightarrow> string" where
  "md5_hexdigest h =
     hex_of_bytes (md5_output (fst (md5_absorb (regs h) (buffer h @ md5_padding (count h)))))"

section \<open>calc_hash_md5\<close>

text \<open>
  The progress bar of \<^verbatim>\<open>tqdm\<close>: its total and the count shown. It is display only.
\<close>

record pbar =
  total :: int
  shown :: int

definition tqdm :: "int \<Rightarrow> pbar" where
  "tqdm file_size = \<lparr>total = file_size, shown = 0\<rparr>"

definition tqdm_update :: "pbar \<Rightarrow> int \<Rightarrow> pbar" where
  "tqdm_update bar k = bar\<lparr>shown := shown bar + k\<rparr>"

lemma read_pieces_content:
  "read_pieces n ps = (chunk, rest) \<Longrightarrow> concat ps = chunk @ concat rest"
  by (induction ps) (auto split: if_splits)

lemma stream_read_shorter:
  assumes "stream_read st n = (Inr chunk, st')" and "chunk \<noteq> []"
  shows "length (stream_content st') < length (stream_content st)"
proof -
  obtain c rest where r: "read_pieces n (pending st) = (c, rest)"
    by (cases "read_pieces n (pending st)")
  with assms have "c = chunk" "st' = st\<lparr>pending := rest\<rparr>"
    by (auto simp: stream_read_def split: if_splits option.splits)
  with read_pieces_content [OF r] assms(2) show ?thesis
    by (simp add: stream_content_def)
qed

text \<open>
  The \<^verbatim>\<open>while True\<close> loop: read a chunk of at most 1 MiB, stop at the empty read,
  otherwise feed the hash object and advance the bar. A read that raises ends the call
  with that exception.
\<close>

function read_loop :: "stream \<Rightarrow> md5_obj \<Rightarrow> pbar \<Rightarrow> (exn + md5_obj) \<times> pbar" where
  "read_loop file_stream md5 file_pbar =
     (case stream_read file_stream (1024 * 1024) of
        (Inl e, file_stream') \<Rightarrow> (Inl e, file_pbar)
      | (Inr chunk, file_stream') \<Rightarrow>
          if chunk = [] then (Inr md5, file_pbar)
          else read_loop file_stream' (md5_update md5 chunk)
                 (tqdm_update file_pbar (int (length chunk))))"
  by pat_completeness auto
termination
  by (relation "measure (\<lambda>(st, md5, bar). length (stream_content st))")
     (auto dest: stream_read_shorter [OF sym])

declare read_loop.simps [simp del]

definition calc_hash_md5 :: "stream \<Rightarrow> int \<Rightarrow> (exn + string) \<times> pbar" where
  "calc_hash_md5 file_stream file_size =
     (case read_loop file_stream md5_new (tqdm file_size) of
        (Inl e, file_pbar) \<Rightarrow> (Inl e, file_pbar)
      | (Inr md5, file_pbar) \<Rightarrow> (Inr (md5_hexdigest md5), file_pbar))"

section \<open>The store client, the trace and the retry decorator\<close>

text \<open>
  The boto3 client is a parameter: a record of its four operations over a state \<open>'s\<close> of
  the store, each returning a result or an exception and the next state. The arguments
  are the bucket, the key (or prefix) and, for \<^verbatim>\<open>put_object\<close>, the body. The paginator of
  \<^verbatim>\<open>list_objects_v2\<close> delivers pages, each with or without a \<^verbatim>\<open>Contents\<close> list of keys,
  and may end with an exception.

  What the program does to the outside is recorded in a trace: the calls to the store,
  the sleeps of \<^verbatim>\<open>time.sleep\<close> (seconds), the waits of the retry decorator and the log
  lines. \<open>Log\<close> is a line whose text the program fixes. \<open>LogException l prefix e\<close> is
  a line formatted from a prefix and an exception object, \<^verbatim>\<open>f"prefix{e}"\<close>: its text is
  the prefix followed by what \<^verbatim>\<open>str(e)\<close> gives, which is the library's business (for
  \<^verbatim>\<open>RetryError\<close> it shows the address of an object).
\<close>

datatype level = DEBUG | INFO | WARNING

datatype event =
    Sleep rat
  | Backoff rat
  | HeadObject string string
  | GetObject string string
  | PutObject string string string
  | ListObjectsV2 string string
  | Log level string
  | LogException level string exn

type_synonym page = "string list option"

record 's s3_client =
  head_object :: "'s \<Rightarrow> string \<Rightarrow> string \<Rightarrow> (exn + unit) \<times> 's"
  get_object :: "'s \<Rightarrow> string \<Rightarrow> string \<Rightarrow> (exn + response) \<times> 's"
  put_object :: "'s \<Rightarrow> string \<Rightarrow> string \<Rightarrow> string \<Rightarrow> (exn + unit) \<times> 's"
  paginate :: "'s \<Rightarrow> string \<Rightarrow> string \<Rightarrow> (page list \<times> exn option) \<times> 's"

record 's world =
  s3 :: 's
  trace :: "event list"

definition emit :: "event \<Rightarrow> 's world \<Rightarrow> 's world" where
  "emit ev w = w\<lparr>trace := trace w @ [ev]\<rparr>"

definition time_sleep :: "rat \<Rightarrow> 's world \<Rightarrow> 's world" where
  "time_sleep secs w = emit (Sleep secs) w"

definition SKIP_EXTENSIONS :: "string set" where
  "SKIP_EXTENSIONS = {''.pfk'', ''.pek'', ''.cfa'', ''.mpegindex''}"

definition GET_LIMIT :: nat where
  "GET_LIMIT = 16"

text \<open>
  The decorator \<^verbatim>\<open>@retry(retry=retry_if_exception_type(ClientError),
  stop=stop_after_attempt(5), wait=wait_exponential(multiplier=1, min=1, max=16))\<close> of
  tenacity: call the function; a result is returned; an exception that is not a
  \<^verbatim>\<open>ClientError\<close> is raised as it is; after the fifth attempt \<^verbatim>\<open>RetryError\<close> is raised
  (\<^verbatim>\<open>reraise\<close> is not set); otherwise wait and call again.
\<close>

definition stop_after_attempt :: "nat \<Rightarrow> nat \<Rightarrow> bool" where
  "stop_after_attempt max_attempt_number attempt_number \<longleftrightarrow> max_attempt_number \<le> attempt_number"

definition wait_exponential :: "rat \<Rightarrow> rat \<Rightarrow> rat \<Rightarrow> nat \<Rightarrow> rat" where
  "wait_exponential multiplier min_wait max_wait attempt_number =
     max (max 0 min_wait) (min (multiplier * 2 ^ (attempt_number - 1)) max_wait)"

function retry :: "('s world \<Rightarrow> (exn + 'a) \<times> 's world) \<Rightarrow> nat \<Rightarrow> 's world \<Rightarrow> (exn + 'a) \<times> 's world" where
  "retry fn attempt_number w =
     (case fn w of
        (Inr v, w') \<Rightarrow> (Inr v, w')
      | (Inl e, w') \<Rightarrow>
          if \<not> is_ClientError e then (Inl e, w')
          else if stop_after_attempt 5 attempt_number then (Inl (RetryError e), w')
          else retry fn (attempt_number + 1)
                 (emit (Backoff (wait_exponential 1 1 16 attempt_number)) w'))"
  by pat_completeness auto
termination
  by (relation "measure (\<lambda>(fn, attempt_number, w). 5 - attempt_number)")
     (auto simp: stop_after_attempt_def)

declare retry.simps [simp del]

text \<open>One call of the function under the decorator: sleep, then the transport call.\<close>

definition get_call :: "'s s3_client \<Rightarrow> string \<Rightarrow> string \<Rightarrow> 's world \<Rightarrow> (exn + response) \<times> 's world" where
  "get_call s3_client bucket_name object_key w =
     (let w1 = emit (GetObject bucket_name object_key) (time_sleep (1 / of_nat GET_LIMIT) w)
      in case get_object s3_client (s3 w1) bucket_name object_key of
           (r, s') \<Rightarrow> (r, w1\<lparr>s3 := s'\<rparr>))"

definition rate_limited_get :: "'s s3_client \<Rightarrow> string \<Rightarrow> string \<Rightarrow> 's world \<Rightarrow> (exn + response) \<times> 's world" where
  "rate_limited_get s3_client bucket_name object_key = retry (get_call s3_client bucket_name object_key) 1"

definition put_call :: "'s s3_client \<Rightarrow> string \<Rightarrow> string \<Rightarrow> string \<Rightarrow> 's world \<Rightarrow> (exn + unit) \<times> 's world" where
  "put_call s3_client bucket_name object_key body w =
     (let w1 = emit (PutObject bucket_name object_key body) (time_sleep (1 / of_nat GET_LIMIT) w)
      in case put_object s3_client (s3 w1) bucket_name object_key body of
           (r, s') \<Rightarrow> (r, w1\<lparr>s3 := s'\<rparr>))"

definition rate_limited_put :: "'s s3_client \<Rightarrow> string \<Rightarrow> string \<Rightarrow> string \<Rightarrow> 's world \<Rightarrow> (exn + unit) \<times> 's world" where
  "rate_limited_put s3_client bucket_name object_key body =
     retry (put_call s3_client bucket_name object_key body) 1"

section \<open>process_file\<close>

text \<open>
  \<open>BUCKET_NAME\<close> is read from the environment when the module is loaded; here it is the
  argument \<open>bucket\<close>. \<open>process_file_try\<close> is the body of the outer \<^verbatim>\<open>try\<close>: it returns
  \<open>Inl e\<close> where the Python raises \<open>e\<close>. \<open>process_file\<close> adds the handler
  \<^verbatim>\<open>except Exception\<close>, which catches what derives from \<^verbatim>\<open>Exception\<close> and lets
  everything else pass to the caller.
\<close>

definition process_file_try :: "'s s3_client \<Rightarrow> string \<Rightarrow> string \<Rightarrow> 's world \<Rightarrow> (exn + unit) \<times> 's world" where
  "process_file_try s3_client bucket object_key w =
     (let md5_key = object_key @ ''.md5'';
          w0 = emit (HeadObject bucket md5_key) w
      in case head_object s3_client (s3 w0) bucket md5_key of
           (Inr found, s1) \<Rightarrow>
             (Inr (), emit (Log INFO (''Checksum file already exists for '' @ object_key @ ''. Skipping.''))
                        (w0\<lparr>s3 := s1\<rparr>))
         | (Inl e, s1) \<Rightarrow>
             if \<not> is_ClientError e \<or> error_code e \<noteq> ''404'' then (Inl e, w0\<lparr>s3 := s1\<rparr>)
             else
               (case rate_limited_get s3_client bucket object_key (w0\<lparr>s3 := s1\<rparr>) of
                  (Inl e, w2) \<Rightarrow> (Inl e, w2)
                | (Inr response, w2) \<Rightarrow>
                    let file_size = ContentLength response in
                    (case calc_hash_md5 (Body response) file_size of
                       (Inl e, file_pbar) \<Rightarrow> (Inl e, w2)
                     | (Inr md5_hash, file_pbar) \<Rightarrow>
                         (case rate_limited_put s3_client bucket md5_key
                                 (md5_hash @ ''  '' @ object_key @ [CHR 0x0A]) w2 of
                            (Inl e, w3) \<Rightarrow> (Inl e, w3)
                          | (Inr done, w3) \<Rightarrow>
                              (Inr (), emit (Log INFO (''Uploaded checksum for '' @ object_key @ '' to '' @ md5_key)) w3)))))"

definition process_file :: "'s s3_client \<Rightarrow> string \<Rightarrow> string \<Rightarrow> 's world \<Rightarrow> (exn + unit) \<times> 's world" where
  "process_file s3_client bucket object_key w =
     (case process_file_try s3_client bucket object_key w of
        (Inr done, w') \<Rightarrow> (Inr (), w')
      | (Inl e, w') \<Rightarrow>
          if is_Exception e
          then (Inr (), emit (LogException WARNING (''Failed to process '' @ object_key @ '': '') e) w')
          else (Inl e, w'))"

section \<open>list_files and main\<close>

text \<open>
  \<^verbatim>\<open>str.lower\<close> on the ASCII letters; keys are taken to be ASCII, where it agrees with
  Python's. \<^verbatim>\<open>endswith\<close> with a tuple is true when one of the suffixes fits.
\<close>

definition lower_char :: "char \<Rightarrow> char" where
  "lower_char ch =
     (case map_of (zip ''ABCDEFGHIJKLMNOPQRSTUVWXYZ'' ''abcdefghijklmnopqrstuvwxyz'') ch of
        Some l \<Rightarrow> l
      | None \<Rightarrow> ch)"

definition lower :: "string \<Rightarrow> string" where
  "lower s = map lower_char s"

definition endswith :: "string \<Rightarrow> string \<Rightarrow> bool" where
  "endswith s suf \<longleftrightarrow> length suf \<le> length s \<and> drop (length s - length suf) s = suf"

definition endswith_any :: "string \<Rightarrow> string set \<Rightarrow> bool" where
  "endswith_any s sufs \<longleftrightarrow> (\<exists>suf \<in> sufs. endswith s suf)"

definition page_keys :: "page \<Rightarrow> string list" where
  "page_keys pg =
     filter (\<lambda>key. \<not> endswith_any (lower key) SKIP_EXTENSIONS)
       (case pg of None \<Rightarrow> [] | Some contents \<Rightarrow> contents)"

text \<open>
  The generator \<open>list_files\<close>: the paginator fetches a page, the loop body sleeps and
  yields the keys of the page that pass the filter. The result is the keys yielded and
  the exception, if any, with which the paginator ended the generator.
\<close>

definition list_files :: "'s s3_client \<Rightarrow> string \<Rightarrow> string \<Rightarrow> 's world \<Rightarrow> (string list \<times> exn option) \<times> 's world" where
  "list_files s3_client bucket prefix w =
     (case paginate s3_client (s3 w) bucket prefix of
        ((pages, err), s') \<Rightarrow>
          let w1 = foldl (\<lambda>w pg. time_sleep (1 / of_nat GET_LIMIT) (emit (ListObjectsV2 bucket prefix) w))
                     (w\<lparr>s3 := s'\<rparr>) pages
          in ((concat (map page_keys pages), err),
              (case err of None \<Rightarrow> w1 | Some e \<Rightarrow> emit (ListObjectsV2 bucket prefix) w1)))"

function str_nat :: "nat \<Rightarrow> string" where
  "str_nat n = (if n < 10 then [hexdigit n] else str_nat (n div 10) @ [hexdigit (n mod 10)])"
  by pat_completeness auto
termination
  by (relation "measure id") auto

declare str_nat.simps [simp del]

text \<open>
  \<open>main\<close> after the command line is parsed: list every key, then submit
  \<open>process_file\<close> for each. The tasks are run here one after the other in the order of
  submission, which is what the pool does with one worker (\<^verbatim>\<open>--threads 1\<close>). An exception
  of the listing leaves \<open>main\<close>; the result of a task, an exception it raised included,
  stays in its future and is never looked at.
\<close>

definition main :: "'s s3_client \<Rightarrow> string \<Rightarrow> string \<Rightarrow> 's world \<Rightarrow> (exn + unit) \<times> 's world" where
  "main s3_client bucket prefix w =
     (let w1 = emit (Log INFO (''Listing files in bucket '' @ bucket @ '' with prefix '' @ [CHR 0x27]
                                @ prefix @ [CHR 0x27] @ ''...'')) w
      in case list_files s3_client bucket prefix w1 of
           ((yielded, Some e), w2) \<Rightarrow> (Inl e, w2)
         | ((all_files, None), w2) \<Rightarrow>
             let w3 = emit (Log INFO (''Found '' @ str_nat (length all_files) @ '' files to process.'')) w2
             in (Inr (), foldl (\<lambda>w object_key. snd (process_file s3_client bucket object_key w)) w3 all_files))"

section \<open>A store for running the program\<close>

text \<open>
  A store in memory, used to run the definitions on concrete inputs: the objects of one
  bucket in listing order, and a script of faults. Each of \<^verbatim>\<open>head_object\<close>,
  \<^verbatim>\<open>get_object\<close> and \<^verbatim>\<open>put_object\<close> takes the next entry of the script: \<open>Some e\<close>
  makes the call raise \<open>e\<close>, \<open>None\<close> or an exhausted script lets it through.
\<close>

record store =
  objects :: "(string \<times> byte list) list"
  faults :: "exn option list"

definition next_fault :: "store \<Rightarrow> exn option \<times> store" where
  "next_fault st = (case faults st of [] \<Rightarrow> (None, st) | f # fs \<Rightarrow> (f, st\<lparr>faults := fs\<rparr>))"

definition str_encode :: "string \<Rightarrow> byte list" where
  "str_encode s = map (\<lambda>ch. of_nat (of_char ch)) s"

definition store_head :: "store \<Rightarrow> string \<Rightarrow> string \<Rightarrow> (exn + unit) \<times> store" where
  "store_head st bucket key =
     (case next_fault st of
        (Some e, st') \<Rightarrow> (Inl e, st')
      | (None, st') \<Rightarrow>
          (case map_of (objects st') key of
             None \<Rightarrow> (Inl (ClientError ''404'' ''Not Found''), st')
           | Some data \<Rightarrow> (Inr (), st')))"

definition store_get :: "store \<Rightarrow> string \<Rightarrow> string \<Rightarrow> (exn + response) \<times> store" where
  "store_get st bucket key =
     (case next_fault st of
        (Some e, st') \<Rightarrow> (Inl e, st')
      | (None, st') \<Rightarrow>
          (case map_of (objects st') key of
             None \<Rightarrow> (Inl (ClientError ''NoSuchKey'' ''The specified key does not exist.''), st')
           | Some data \<Rightarrow>
               (Inr \<lparr>Body = \<lparr>pending = [data], failure = None\<rparr>, ContentLength = int (length data)\<rparr>, st')))"

definition store_put :: "store \<Rightarrow> string \<Rightarrow> string \<Rightarrow> string \<Rightarrow> (exn + unit) \<times> store" where
  "store_put st bucket key body =
     (case next_fault st of
        (Some e, st') \<Rightarrow> (Inl e, st')
      | (None, st') \<Rightarrow>
          (Inr (), st'\<lparr>objects := filter (\<lambda>(k, data). k \<noteq> key) (objects st') @ [(key, str_encode body)]\<rparr>))"

definition startswith :: "string \<Rightarrow> string \<Rightarrow> bool" where
  "startswith s pre \<longleftrightarrow> take (length pre) s = pre"

definition store_paginate :: "store \<Rightarrow> string \<Rightarrow> string \<Rightarrow> (page list \<times> exn option) \<times> store" where
  "store_paginate st bucket prefix =
     (let keys = filter (\<lambda>k. startswith k prefix) (map fst (objects st))
      in (([if keys = [] then None else Some keys], None), st))"

definition store_client :: "store s3_client" where
  "store_client =
     \<lparr>head_object = store_head, get_object = store_get, put_object = store_put,
      paginate = store_paginate\<rparr>"


section \<open>Reading hash objects, traces and clocks\<close>

text \<open>\<open>fed h msg\<close>: the hash object \<open>h\<close> is in the state reached by feeding it the bytes \<open>msg\<close>.\<close>

definition fed :: "md5_obj \<Rightarrow> byte list \<Rightarrow> bool" where
  "fed h msg \<longleftrightarrow> md5_absorb md5_iv msg = (regs h, buffer h) \<and> count h = length msg"

text \<open>
  The events of \<open>n\<close> attempts of a decorated call, the first of them attempt number
  \<open>a\<close>: each attempt is the sleep and the transport call, and between two attempts lies
  the wait of the decorator.
\<close>

fun attempt_events :: "event \<Rightarrow> nat \<Rightarrow> nat \<Rightarrow> event list" where
  "attempt_events call a 0 = []"
| "attempt_events call a (Suc n) =
     Sleep (1 / of_nat GET_LIMIT) # call #
       (if n = 0 then [] else Backoff (wait_exponential 1 1 16 a) # attempt_events call (Suc a) n)"

text \<open>The results of \<open>n\<close> successive transport calls, and the state of the store after them.\<close>

fun get_results :: "'s s3_client \<Rightarrow> string \<Rightarrow> string \<Rightarrow> nat \<Rightarrow> 's \<Rightarrow> (exn + response) list \<times> 's" where
  "get_results s3_client bucket key 0 s = ([], s)"
| "get_results s3_client bucket key (Suc n) s =
     (case get_object s3_client s bucket key of
        (r, s') \<Rightarrow> (case get_results s3_client bucket key n s' of (rs, s'') \<Rightarrow> (r # rs, s'')))"

fun put_results :: "'s s3_client \<Rightarrow> string \<Rightarrow> string \<Rightarrow> string \<Rightarrow> nat \<Rightarrow> 's \<Rightarrow> (exn + unit) list \<times> 's" where
  "put_results s3_client bucket key body 0 s = ([], s)"
| "put_results s3_client bucket key body (Suc n) s =
     (case put_object s3_client s bucket key body of
        (r, s') \<Rightarrow> (case put_results s3_client bucket key body n s' of (rs, s'') \<Rightarrow> (r # rs, s'')))"

fun is_head :: "event \<Rightarrow> bool" where
  "is_head (HeadObject bucket key) = True"
| "is_head ev = False"

fun is_put :: "event \<Rightarrow> bool" where
  "is_put (PutObject bucket key body) = True"
| "is_put ev = False"

text \<open>
  Time. One caller runs its events one after the other. An event takes at least its
  duration: a sleep or a wait its seconds, anything else no time; \<open>lag i\<close> is the time
  the \<open>i\<close>-th event takes beyond that (scheduling, the network, hashing). An acquisition
  of the rate limit is a \<^verbatim>\<open>time.sleep(1 / GET_LIMIT)\<close>; it is granted when the sleep
  returns. \<open>grants lag i t evs\<close> lists the times of the grants when the caller starts
  the events \<open>evs\<close>, numbered from \<open>i\<close>, at time \<open>t\<close>.
\<close>

fun duration :: "event \<Rightarrow> rat" where
  "duration (Sleep secs) = secs"
| "duration (Backoff secs) = secs"
| "duration ev = 0"

fun is_acquire :: "event \<Rightarrow> bool" where
  "is_acquire (Sleep secs) = True"
| "is_acquire ev = False"

fun grants :: "(nat \<Rightarrow> rat) \<Rightarrow> nat \<Rightarrow> rat \<Rightarrow> event list \<Rightarrow> rat list" where
  "grants lag i t [] = []"
| "grants lag i t (ev # evs) =
     (let t' = t + duration ev + lag i
      in (if is_acquire ev then [t'] else []) @ grants lag (Suc i) t' evs)"

fun spaced :: "rat \<Rightarrow> rat list \<Rightarrow> bool" where
  "spaced gap (t1 # t2 # ts) = (t1 + gap \<le> t2 \<and> spaced gap (t2 # ts))"
| "spaced gap ts = True"

definition no_lag :: "nat \<Rightarrow> rat" where
  "no_lag i = 0"

text \<open>
  The events of a decorated call that makes all five attempts: each attempt sleeps and
  calls the transport, and the waits between them are 1, 2, 4 and 8 seconds.
\<close>

definition five_attempts :: "event \<Rightarrow> event list" where
  "five_attempts call =
     [Sleep (1 / of_nat GET_LIMIT), call, Backoff 1,
      Sleep (1 / of_nat GET_LIMIT), call, Backoff 2,
      Sleep (1 / of_nat GET_LIMIT), call, Backoff 4,
      Sleep (1 / of_nat GET_LIMIT), call, Backoff 8,
      Sleep (1 / of_nat GET_LIMIT), call]"

section \<open>The incremental hash is the reference hash\<close>

lemma read_pieces_empty:
  "0 < n \<Longrightarrow> read_pieces n ps = ([], rest) \<Longrightarrow> concat ps = [] \<and> rest = []"
  by (induction ps) (auto split: if_splits)

lemma stream_read_Inr:
  assumes "stream_read st n = (Inr chunk, st')"
  shows "stream_content st = chunk @ stream_content st'" and "failure st' = failure st"
proof -
  obtain c rest where r: "read_pieces n (pending st) = (c, rest)"
    by (cases "read_pieces n (pending st)")
  with assms have eq: "st' = st\<lparr>pending := rest\<rparr>" and c: "c = [] \<and> chunk = [] \<or> c = chunk"
    by (auto simp: stream_read_def split: if_splits option.splits)
  from read_pieces_content [OF r] c eq
  show "stream_content st = chunk @ stream_content st'"
    by (auto simp: stream_content_def)
  from eq show "failure st' = failure st" by simp
qed

lemma stream_read_eof:
  assumes "stream_read st n = (Inr [], st')" and "0 < n"
  shows "stream_content st = []" and "failure st = None"
proof -
  obtain c rest where r: "read_pieces n (pending st) = (c, rest)"
    by (cases "read_pieces n (pending st)")
  with assms have c: "c = []" and f: "failure st = None"
    by (auto simp: stream_read_def split: if_splits option.splits)
  from read_pieces_empty [OF assms(2)] r c show "stream_content st = []"
    by (simp add: stream_content_def)
  from f show "failure st = None" .
qed

lemma stream_read_Inl:
  assumes "stream_read st n = (Inl e, st')"
  shows "failure st = Some e"
  using assms by (auto simp: stream_read_def split: prod.splits if_splits option.splits)

lemma md5_absorb_append:
  "md5_absorb r (xs @ ys) = (case md5_absorb r xs of (r', rest) \<Rightarrow> md5_absorb r' (rest @ ys))"
proof (induction r xs rule: md5_absorb.induct)
  case (1 r bs)
  show ?case
  proof (cases "64 \<le> length bs")
    case True
    then have "md5_absorb r (bs @ ys) = md5_absorb (md5_compress r (take 64 bs)) (drop 64 bs @ ys)"
      by (subst md5_absorb.simps) simp
    also have "\<dots> = (case md5_absorb (md5_compress r (take 64 bs)) (drop 64 bs) of
                        (r', rest) \<Rightarrow> md5_absorb r' (rest @ ys))"
      using "1.IH" [OF True] .
    also have "md5_absorb (md5_compress r (take 64 bs)) (drop 64 bs) = md5_absorb r bs"
      using True by (subst (2) md5_absorb.simps) simp
    finally show ?thesis .
  next
    case False
    then have "md5_absorb r bs = (r, bs)"
      by (subst md5_absorb.simps) simp
    then show ?thesis by simp
  qed
qed

lemma md5_absorb_blocks: "fst (md5_absorb r bs) = foldl md5_compress r (blocks64 bs)"
proof (induction r bs rule: md5_absorb.induct)
  case (1 r bs)
  show ?case
  proof (cases "64 \<le> length bs")
    case True
    have "fst (md5_absorb r bs) = fst (md5_absorb (md5_compress r (take 64 bs)) (drop 64 bs))"
      using True by (subst md5_absorb.simps) simp
    also have "\<dots> = foldl md5_compress (md5_compress r (take 64 bs)) (blocks64 (drop 64 bs))"
      using "1.IH" [OF True] .
    also have "\<dots> = foldl md5_compress r (blocks64 bs)"
      using True by (subst (2) blocks64.simps) simp
    finally show ?thesis .
  next
    case False
    then show ?thesis
      by (subst md5_absorb.simps, subst blocks64.simps) simp
  qed
qed

lemma md5_absorb_Nil: "md5_absorb r [] = (r, [])"
  by (subst md5_absorb.simps) simp

lemma fed_new: "fed md5_new []"
  by (simp add: fed_def md5_new_def md5_absorb_Nil)

lemma fed_update:
  assumes "fed h msg"
  shows "fed (md5_update h data) (msg @ data)"
proof -
  from assms have a: "md5_absorb md5_iv msg = (regs h, buffer h)" and c: "count h = length msg"
    by (simp_all add: fed_def)
  have "md5_absorb md5_iv (msg @ data) = md5_absorb (regs h) (buffer h @ data)"
    using md5_absorb_append [of md5_iv msg data] a by simp
  with c show ?thesis
    by (simp add: fed_def md5_update_def split: prod.splits)
qed

lemma fed_hexdigest:
  assumes "fed h msg"
  shows "md5_hexdigest h = md5_ref msg"
proof -
  from assms have a: "md5_absorb md5_iv msg = (regs h, buffer h)" and c: "count h = length msg"
    by (simp_all add: fed_def)
  have "md5_absorb md5_iv (msg @ md5_padding (length msg))
          = md5_absorb (regs h) (buffer h @ md5_padding (count h))"
    using md5_absorb_append [of md5_iv msg "md5_padding (length msg)"] a c by simp
  then show ?thesis
    by (simp add: md5_hexdigest_def md5_ref_def md5_absorb_blocks [symmetric])
qed

lemma read_loop_ok:
  "fed h msg \<Longrightarrow> failure st = None \<Longrightarrow>
     \<exists>h'. read_loop st h bar = (Inr h', bar\<lparr>shown := shown bar + int (length (stream_content st))\<rparr>)
          \<and> fed h' (msg @ stream_content st)"
proof (induction st h bar arbitrary: msg rule: read_loop.induct)
  case (1 st h bar)
  obtain r st' where rd: "stream_read st (1024 * 1024) = (r, st')"
    by (cases "stream_read st (1024 * 1024)")
  show ?case
  proof (cases r)
    case (Inl e)
    with rd stream_read_Inl [of st "1024 * 1024" e st'] "1.prems" show ?thesis by simp
  next
    case (Inr chunk)
    note rd' = rd [unfolded Inr]
    show ?thesis
    proof (cases "chunk = []")
      case True
      with rd' stream_read_eof(1) [of st "1024 * 1024" st'] have "stream_content st = []" by simp
      with True rd' "1.prems" show ?thesis
        by (subst read_loop.simps) simp
    next
      case False
      from stream_read_Inr [OF rd'] "1.prems"
      have c: "stream_content st = chunk @ stream_content st'" and f: "failure st' = None"
        by simp_all
      from "1.IH" [OF rd' [symmetric] refl False fed_update [OF "1.prems"(1)] f]
      obtain h' where
        "read_loop st' (md5_update h chunk) (tqdm_update bar (int (length chunk)))
           = (Inr h', tqdm_update bar (int (length chunk))
                \<lparr>shown := shown (tqdm_update bar (int (length chunk))) + int (length (stream_content st'))\<rparr>)"
        and "fed h' ((msg @ chunk) @ stream_content st')"
        by blast
      with rd' False c show ?thesis
        by (subst read_loop.simps) (simp add: tqdm_update_def)
    qed
  qed
qed

lemma read_loop_fail:
  "failure st = Some e \<Longrightarrow> fst (read_loop st h bar) = Inl e"
proof (induction st h bar rule: read_loop.induct)
  case (1 st h bar)
  obtain r st' where rd: "stream_read st (1024 * 1024) = (r, st')"
    by (cases "stream_read st (1024 * 1024)")
  show ?case
  proof (cases r)
    case (Inl e')
    with rd stream_read_Inl [of st "1024 * 1024" e' st'] "1.prems" show ?thesis
      by (subst read_loop.simps) simp
  next
    case (Inr chunk)
    note rd' = rd [unfolded Inr]
    show ?thesis
    proof (cases "chunk = []")
      case True
      with rd' stream_read_eof(2) [of st "1024 * 1024" st'] "1.prems" show ?thesis by simp
    next
      case False
      from stream_read_Inr(2) [OF rd'] "1.prems" have "failure st' = Some e" by simp
      from "1.IH" [OF rd' [symmetric] refl False this] rd' False show ?thesis
        by (subst read_loop.simps) simp
    qed
  qed
qed

lemma calc_hash_md5_ok:
  "failure st = None \<Longrightarrow>
     calc_hash_md5 st n = (Inr (md5_ref (stream_content st)),
                           \<lparr>total = n, shown = int (length (stream_content st))\<rparr>)"
  using read_loop_ok [OF fed_new, of st "tqdm n"]
  by (auto simp: calc_hash_md5_def tqdm_def dest: fed_hexdigest)

lemma calc_hash_md5_fail:
  "failure st = Some e \<Longrightarrow> fst (calc_hash_md5 st n) = Inl e"
  using read_loop_fail [of st e md5_new "tqdm n"]
  by (auto simp: calc_hash_md5_def split: prod.splits sum.splits)

lemma length_hex_of_bytes: "length (hex_of_bytes bs) = 2 * length bs"
  by (induction bs) (simp_all add: hex_of_bytes_def)

lemma length_md5_output: "length (md5_output r) = 16"
  by (cases r) (simp add: md5_output_def le_bytes_def)

lemma length_md5_ref: "length (md5_ref msg) = 32"
  by (simp add: md5_ref_def length_hex_of_bytes length_md5_output)

lemma hexdigit_in: "hexdigit n \<in> set ''0123456789abcdef''"
proof -
  have "n mod 16 < length ''0123456789abcdef''" by simp
  then show ?thesis unfolding hexdigit_def by (rule nth_mem)
qed

lemma set_hex_of_bytes: "set (hex_of_bytes bs) \<subseteq> set ''0123456789abcdef''"
  using hexdigit_in by (auto simp: hex_of_bytes_def)

lemma set_md5_ref: "set (md5_ref msg) \<subseteq> set ''0123456789abcdef''"
  unfolding md5_ref_def by (rule set_hex_of_bytes)

section \<open>The shape of a decorated call\<close>

lemma trace_emit: "trace (emit ev w) = trace w @ [ev]"
  by (simp add: emit_def)

lemma s3_emit: "s3 (emit ev w) = s3 w"
  by (simp add: emit_def)

lemma get_call_eq:
  "get_object c (s3 w) b k = (r, s') \<Longrightarrow>
     get_call c b k w = (r, \<lparr>s3 = s', trace = trace w @ [Sleep (1 / of_nat GET_LIMIT), GetObject b k]\<rparr>)"
  by (simp add: get_call_def time_sleep_def emit_def Let_def)

lemma put_call_eq:
  "put_object c (s3 w) b k body = (r, s') \<Longrightarrow>
     put_call c b k body w =
       (r, \<lparr>s3 = s', trace = trace w @ [Sleep (1 / of_nat GET_LIMIT), PutObject b k body]\<rparr>)"
  by (simp add: put_call_def time_sleep_def emit_def Let_def)

lemma trace_get_call:
  "trace (snd (get_call c b k w)) = trace w @ [Sleep (1 / of_nat GET_LIMIT), GetObject b k]"
  by (cases "get_object c (s3 w) b k") (simp add: get_call_eq)

lemma trace_put_call:
  "trace (snd (put_call c b k body w)) = trace w @ [Sleep (1 / of_nat GET_LIMIT), PutObject b k body]"
  by (cases "put_object c (s3 w) b k body") (simp add: put_call_eq)

lemma retry_Inr: "fn w = (Inr v, w') \<Longrightarrow> retry fn a w = (Inr v, w')"
  by (subst retry.simps) simp

lemma retry_other: "fn w = (Inl e, w') \<Longrightarrow> \<not> is_ClientError e \<Longrightarrow> retry fn a w = (Inl e, w')"
  by (subst retry.simps) simp

lemma retry_stop:
  "fn w = (Inl e, w') \<Longrightarrow> is_ClientError e \<Longrightarrow> 5 \<le> a \<Longrightarrow> retry fn a w = (Inl (RetryError e), w')"
  by (subst retry.simps) (simp add: stop_after_attempt_def)

lemma retry_again:
  "fn w = (Inl e, w') \<Longrightarrow> is_ClientError e \<Longrightarrow> a < 5 \<Longrightarrow>
     retry fn a w = retry fn (Suc a) (emit (Backoff (wait_exponential 1 1 16 a)) w')"
  by (subst retry.simps) (simp add: stop_after_attempt_def)

lemma retry_shape:
  assumes step: "\<And>w. trace (snd (fn w)) = trace w @ [Sleep (1 / of_nat GET_LIMIT), call]"
  shows "1 \<le> a \<Longrightarrow> a \<le> 5 \<Longrightarrow>
           \<exists>n. 1 \<le> n \<and> a + n \<le> 6 \<and>
               trace (snd (retry fn a w)) = trace w @ attempt_events call a n"
proof (induction "5 - a" arbitrary: a w)
  case 0
  then have a: "a = 5" by simp
  obtain r w' where f: "fn w = (r, w')" by (cases "fn w")
  from step [of w] f have t: "trace w' = trace w @ [Sleep (1 / of_nat GET_LIMIT), call]" by simp
  have "trace (snd (retry fn a w)) = trace w'"
  proof (cases r)
    case (Inl e)
    with f a show ?thesis
      by (cases "is_ClientError e") (simp_all add: retry_other retry_stop)
  next
    case (Inr v)
    with f show ?thesis by (simp add: retry_Inr)
  qed
  with t have "trace (snd (retry fn a w)) = trace w @ attempt_events call a 1" by simp
  with a show ?case by (intro exI [of _ 1]) simp
next
  case (Suc m)
  then have a: "a < 5" by simp
  obtain r w' where f: "fn w = (r, w')" by (cases "fn w")
  from step [of w] f have t: "trace w' = trace w @ [Sleep (1 / of_nat GET_LIMIT), call]" by simp
  have one: "trace w' = trace w @ attempt_events call a 1" using t by simp
  show ?case
  proof (cases "\<exists>e. r = Inl e \<and> is_ClientError e")
    case False
    then have "trace (snd (retry fn a w)) = trace w'"
      using f by (cases r) (simp_all add: retry_other retry_Inr)
    with one Suc.prems a show ?thesis by (intro exI [of _ 1]) simp
  next
    case True
    then obtain e where e: "r = Inl e" "is_ClientError e" by blast
    let ?w = "emit (Backoff (wait_exponential 1 1 16 a)) w'"
    from f e a have r: "retry fn a w = retry fn (Suc a) ?w" by (simp add: retry_again)
    from Suc.hyps(2) a have "m = 5 - Suc a" by simp
    from Suc.hyps(1) [OF this, of ?w] a
    obtain n where n: "1 \<le> n" "Suc a + n \<le> 6"
      "trace (snd (retry fn (Suc a) ?w)) = trace ?w @ attempt_events call (Suc a) n"
      by auto
    from n(1) obtain n' where n': "n = Suc n'" by (cases n) auto
    have "trace (snd (retry fn a w)) = trace w @ attempt_events call a (Suc n)"
      using r n(3) t n' by (simp add: trace_emit)
    with n(1,2) show ?thesis by (intro exI [of _ "Suc n"]) simp
  qed
qed

lemma rate_limited_get_shape:
  "\<exists>n. 1 \<le> n \<and> n \<le> 5 \<and>
       trace (snd (rate_limited_get c b k w)) = trace w @ attempt_events (GetObject b k) 1 n"
  using retry_shape [of "get_call c b k" "GetObject b k" 1 w, OF trace_get_call]
  by (auto simp: rate_limited_get_def)

lemma rate_limited_put_shape:
  "\<exists>n. 1 \<le> n \<and> n \<le> 5 \<and>
       trace (snd (rate_limited_put c b k body w)) = trace w @ attempt_events (PutObject b k body) 1 n"
  using retry_shape [of "put_call c b k body" "PutObject b k body" 1 w, OF trace_put_call]
  by (auto simp: rate_limited_put_def)

lemma get_results_Suc:
  "get_results c b k (Suc n) s = (r # rs, s'') \<longleftrightarrow>
     (\<exists>s'. get_object c s b k = (r, s') \<and> get_results c b k n s' = (rs, s''))"
  by (auto split: prod.splits)

lemma put_results_Suc:
  "put_results c b k body (Suc n) s = (r # rs, s'') \<longleftrightarrow>
     (\<exists>s'. put_object c s b k body = (r, s') \<and> put_results c b k body n s' = (rs, s''))"
  by (auto split: prod.splits)

lemma get_results_5:
  assumes "get_results c b k 5 s = ([r1, r2, r3, r4, r5], s')"
  obtains st1 st2 st3 st4 where
    "get_object c s b k = (r1, st1)" "get_object c st1 b k = (r2, st2)"
    "get_object c st2 b k = (r3, st3)" "get_object c st3 b k = (r4, st4)"
    "get_object c st4 b k = (r5, s')"
  using assms by (auto simp: eval_nat_numeral get_results_Suc simp del: get_results.simps(2))

lemma put_results_5:
  assumes "put_results c b k body 5 s = ([r1, r2, r3, r4, r5], s')"
  obtains st1 st2 st3 st4 where
    "put_object c s b k body = (r1, st1)" "put_object c st1 b k body = (r2, st2)"
    "put_object c st2 b k body = (r3, st3)" "put_object c st3 b k body = (r4, st4)"
    "put_object c st4 b k body = (r5, s')"
  using assms by (auto simp: eval_nat_numeral put_results_Suc simp del: put_results.simps(2))

lemma retry_five:
  assumes f1: "fn w = (Inl e1, w1)" and c1: "is_ClientError e1"
    and f2: "fn (emit (Backoff 1) w1) = (Inl e2, w2)" and c2: "is_ClientError e2"
    and f3: "fn (emit (Backoff 2) w2) = (Inl e3, w3)" and c3: "is_ClientError e3"
    and f4: "fn (emit (Backoff 4) w3) = (Inl e4, w4)" and c4: "is_ClientError e4"
    and f5: "fn (emit (Backoff 8) w4) = (r, w5)"
  shows "retry fn 1 w =
           (case r of Inr v \<Rightarrow> Inr v
            | Inl e \<Rightarrow> if is_ClientError e then Inl (RetryError e) else Inl e, w5)"
proof -
  have wait: "wait_exponential 1 1 16 1 = 1" "wait_exponential 1 1 16 2 = 2"
    "wait_exponential 1 1 16 3 = 4" "wait_exponential 1 1 16 4 = 8"
    by (simp_all add: wait_exponential_def)
  have "retry fn 1 w = retry fn 2 (emit (Backoff 1) w1)"
    using retry_again [where fn = fn and w = "w" and e = e1 and w' = w1 and a = 1, OF f1 c1] wait by (simp add: numeral_2_eq_2)
  also have "\<dots> = retry fn 3 (emit (Backoff 2) w2)"
    using retry_again [where fn = fn and w = "emit (Backoff 1) w1" and e = e2 and w' = w2 and a = 2, OF f2 c2] wait by (simp add: numeral_3_eq_3)
  also have "\<dots> = retry fn 4 (emit (Backoff 4) w3)"
    using retry_again [where fn = fn and w = "emit (Backoff 2) w2" and e = e3 and w' = w3 and a = 3, OF f3 c3] wait by (simp add: eval_nat_numeral)
  also have "\<dots> = retry fn 5 (emit (Backoff 8) w4)"
    using retry_again [where fn = fn and w = "emit (Backoff 4) w3" and e = e4 and w' = w4 and a = 4, OF f4 c4] wait by (simp add: eval_nat_numeral)
  also have "\<dots> = (case r of Inr v \<Rightarrow> Inr v
            | Inl e \<Rightarrow> if is_ClientError e then Inl (RetryError e) else Inl e, w5)"
  proof (cases r)
    case (Inl e)
    with f5 show ?thesis
      by (cases "is_ClientError e") (simp_all add: retry_other retry_stop)
  next
    case (Inr v)
    with f5 show ?thesis by (simp add: retry_Inr)
  qed
  finally show ?thesis .
qed

lemma rate_limited_get_five:
  assumes "get_results c b k 5 (s3 w) =
             ([Inl (ClientError c1 t1), Inl (ClientError c2 t2), Inl (ClientError c3 t3),
               Inl (ClientError c4 t4), r], s')"
  shows "rate_limited_get c b k w =
           (case r of Inr v \<Rightarrow> Inr v
            | Inl e \<Rightarrow> if is_ClientError e then Inl (RetryError e) else Inl e,
            \<lparr>s3 = s', trace = trace w @ five_attempts (GetObject b k)\<rparr>)"
proof -
  from assms obtain st1 st2 st3 st4 where g:
    "get_object c (s3 w) b k = (Inl (ClientError c1 t1), st1)"
    "get_object c st1 b k = (Inl (ClientError c2 t2), st2)"
    "get_object c st2 b k = (Inl (ClientError c3 t3), st3)"
    "get_object c st3 b k = (Inl (ClientError c4 t4), st4)"
    "get_object c st4 b k = (r, s')"
    by (rule get_results_5)
  show ?thesis
    unfolding rate_limited_get_def
    by (subst retry_five [where fn = "get_call c b k"])
       (rule get_call_eq | simp add: emit_def g five_attempts_def)+
qed

lemma rate_limited_put_five:
  assumes "put_results c b k body 5 (s3 w) =
             ([Inl (ClientError c1 t1), Inl (ClientError c2 t2), Inl (ClientError c3 t3),
               Inl (ClientError c4 t4), r], s')"
  shows "rate_limited_put c b k body w =
           (case r of Inr v \<Rightarrow> Inr v
            | Inl e \<Rightarrow> if is_ClientError e then Inl (RetryError e) else Inl e,
            \<lparr>s3 = s', trace = trace w @ five_attempts (PutObject b k body)\<rparr>)"
proof -
  from assms obtain st1 st2 st3 st4 where g:
    "put_object c (s3 w) b k body = (Inl (ClientError c1 t1), st1)"
    "put_object c st1 b k body = (Inl (ClientError c2 t2), st2)"
    "put_object c st2 b k body = (Inl (ClientError c3 t3), st3)"
    "put_object c st3 b k body = (Inl (ClientError c4 t4), st4)"
    "put_object c st4 b k body = (r, s')"
    by (rule put_results_5)
  show ?thesis
    unfolding rate_limited_put_def
    by (subst retry_five [where fn = "put_call c b k body"])
       (rule put_call_eq | simp add: emit_def g five_attempts_def)+
qed

lemma store_faults_get:
  "get_object store_client \<lparr>objects = objs, faults = Some e # fs\<rparr> b k
     = (Inl e, \<lparr>objects = objs, faults = fs\<rparr>)"
  by (simp add: store_client_def store_get_def next_fault_def)

lemma store_faults_put:
  "put_object store_client \<lparr>objects = objs, faults = Some e # fs\<rparr> b k body
     = (Inl e, \<lparr>objects = objs, faults = fs\<rparr>)"
  by (simp add: store_client_def store_put_def next_fault_def)

lemma attempt_events_no_head:
  "\<not> is_head call \<Longrightarrow> filter is_head (attempt_events call a n) = []"
  by (induction n arbitrary: a) simp_all

text \<open>What \<open>process_file_try\<close> adds to the trace: the head call, then events among which
  there is no further head call.\<close>

lemma process_file_try_trace:
  "\<exists>evs. trace (snd (process_file_try c b k w)) = trace w @ HeadObject b (k @ ''.md5'') # evs
         \<and> filter is_head evs = []"
proof -
  let ?md5 = "k @ ''.md5''"
  let ?w0 = "emit (HeadObject b ?md5) w"
  obtain r s1 where h: "head_object c (s3 ?w0) b ?md5 = (r, s1)"
    by (cases "head_object c (s3 ?w0) b ?md5")
  let ?w1 = "?w0\<lparr>s3 := s1\<rparr>"
  have t1: "trace ?w1 = trace w @ [HeadObject b ?md5]" by (simp add: emit_def)
  show ?thesis
  proof (cases r)
    case (Inr found)
    with h show ?thesis
      by (simp add: process_file_try_def Let_def emit_def)
  next
    case (Inl e)
    show ?thesis
    proof (cases "\<not> is_ClientError e \<or> error_code e \<noteq> ''404''")
      case True
      with h Inl show ?thesis
        by (simp add: process_file_try_def Let_def emit_def)
    next
      case False
      obtain rg w2 where g: "rate_limited_get c b k ?w1 = (rg, w2)"
        by (cases "rate_limited_get c b k ?w1")
      from rate_limited_get_shape [of c b k ?w1] g
      obtain n where n: "trace w2 = trace ?w1 @ attempt_events (GetObject b k) 1 n"
        by auto
      have gp: "filter is_head (attempt_events (GetObject b k) 1 n) = []"
        by (simp add: attempt_events_no_head)
      show ?thesis
      proof (cases rg)
        case (Inl e2)
        with h \<open>r = Inl e\<close> False g n t1 gp show ?thesis
          by (simp add: process_file_try_def Let_def)
      next
        case (Inr response)
        obtain rh bar where c: "calc_hash_md5 (Body response) (ContentLength response) = (rh, bar)"
          by (cases "calc_hash_md5 (Body response) (ContentLength response)")
        show ?thesis
        proof (cases rh)
          case (Inl e3)
          with h \<open>r = Inl e\<close> False g Inr c n t1 gp show ?thesis
            by (simp add: process_file_try_def Let_def)
        next
          case (Inr md5_hash)
          let ?body = "md5_hash @ ''  '' @ k @ [CHR 0x0A]"
          obtain rp w3 where p: "rate_limited_put c b ?md5 ?body w2 = (rp, w3)"
            by (cases "rate_limited_put c b ?md5 ?body w2")
          from rate_limited_put_shape [of c b ?md5 ?body w2] p
          obtain m where m: "trace w3 = trace w2 @ attempt_events (PutObject b ?md5 ?body) 1 m"
            by auto
          have pp: "filter is_head (attempt_events (PutObject b ?md5 ?body) 1 m) = []"
            by (simp add: attempt_events_no_head)
          from h \<open>r = Inl e\<close> False g \<open>rg = Inr response\<close> c Inr p n m t1 gp pp show ?thesis
            by (cases rp) (simp_all add: process_file_try_def Let_def emit_def)
        qed
      qed
    qed
  qed
qed

lemma process_file_trace:
  "\<exists>evs. trace (snd (process_file c b k w)) = trace w @ HeadObject b (k @ ''.md5'') # evs
         \<and> filter is_head evs = []"
proof -
  obtain r w' where t: "process_file_try c b k w = (r, w')"
    by (cases "process_file_try c b k w")
  from process_file_try_trace [of c b k w] t
  obtain evs where "trace w' = trace w @ HeadObject b (k @ ''.md5'') # evs"
    "filter is_head evs = []"
    by auto
  with t show ?thesis
    by (cases r) (simp_all add: process_file_def emit_def)
qed

lemma attempt_events_first:
  "1 \<le> n \<Longrightarrow> \<exists>evs. attempt_events call a n = Sleep (1 / of_nat GET_LIMIT) # call # evs"
  by (cases n) simp_all

text \<open>After a first attempt that raised \<^verbatim>\<open>ClientError\<close>, the decorator waits one second
  and makes a second attempt.\<close>

lemma retry_second_attempt:
  assumes step: "\<And>w. trace (snd (fn w)) = trace w @ [Sleep (1 / of_nat GET_LIMIT), call]"
    and first: "fn w = (Inl e, w')" and ce: "is_ClientError e"
  shows "\<exists>evs. trace (snd (retry fn 1 w)) =
           trace w @ [Sleep (1 / of_nat GET_LIMIT), call, Backoff 1,
                      Sleep (1 / of_nat GET_LIMIT), call] @ evs"
proof -
  have wait: "wait_exponential 1 1 16 1 = 1" by (simp add: wait_exponential_def)
  let ?w = "emit (Backoff 1) w'"
  have r: "retry fn 1 w = retry fn 2 ?w"
    using retry_again [where fn = fn and w = w and e = e and w' = w' and a = 1, OF first ce] wait
    by (simp add: numeral_2_eq_2)
  from step [of w] first have t: "trace w' = trace w @ [Sleep (1 / of_nat GET_LIMIT), call]"
    by simp
  from retry_shape [of fn call 2 ?w, OF step]
  obtain n where n: "1 \<le> n"
    "trace (snd (retry fn 2 ?w)) = trace ?w @ attempt_events call 2 n"
    by auto
  from attempt_events_first [OF n(1), of call 2]
  obtain evs where "attempt_events call 2 n = Sleep (1 / of_nat GET_LIMIT) # call # evs" by blast
  with r n(2) t show ?thesis by (simp add: trace_emit)
qed

lemma retry_never_client_error:
  "fst (retry fn a w) \<noteq> Inl (ClientError code text)"
proof (induction fn a w rule: retry.induct)
  case (1 fn a w)
  obtain r w' where f: "fn w = (r, w')" by (cases "fn w")
  show ?case
  proof (cases r)
    case (Inr v)
    with f show ?thesis by (simp add: retry_Inr)
  next
    case (Inl e)
    show ?thesis
    proof (cases "is_ClientError e")
      case False
      with f Inl have "retry fn a w = (Inl e, w')" by (simp add: retry_other)
      with False show ?thesis by auto
    next
      case True
      show ?thesis
      proof (cases "5 \<le> a")
        case True
        with f Inl \<open>is_ClientError e\<close> show ?thesis by (simp add: retry_stop)
      next
        case False
        then have "\<not> stop_after_attempt 5 a" by (simp add: stop_after_attempt_def)
        from "1.IH" [OF f [symmetric] Inl _ this] True f Inl False show ?thesis
          by (simp add: retry_again)
      qed
    qed
  qed
qed

section \<open>Running on the store in memory\<close>

lemma store_get_found:
  "map_of objs k = Some data \<Longrightarrow>
     get_object store_client \<lparr>objects = objs, faults = []\<rparr> b k
       = (Inr \<lparr>Body = \<lparr>pending = [data], failure = None\<rparr>, ContentLength = int (length data)\<rparr>,
          \<lparr>objects = objs, faults = []\<rparr>)"
  by (simp add: store_client_def store_get_def next_fault_def)

lemma store_put_ok:
  "put_object store_client \<lparr>objects = objs, faults = []\<rparr> b k body
     = (Inr (), \<lparr>objects = filter (\<lambda>(k', data). k' \<noteq> k) objs @ [(k, str_encode body)], faults = []\<rparr>)"
  by (simp add: store_client_def store_put_def next_fault_def)

lemma store_head_found:
  "map_of objs k = Some data \<Longrightarrow>
     head_object store_client \<lparr>objects = objs, faults = []\<rparr> b k = (Inr (), \<lparr>objects = objs, faults = []\<rparr>)"
  by (simp add: store_client_def store_head_def next_fault_def)

lemma store_head_missing:
  "map_of objs k = None \<Longrightarrow>
     head_object store_client \<lparr>objects = objs, faults = []\<rparr> b k
       = (Inl (ClientError ''404'' ''Not Found''), \<lparr>objects = objs, faults = []\<rparr>)"
  by (simp add: store_client_def store_head_def next_fault_def)

lemma rate_limited_get_first:
  "get_object c (s3 w) b k = (Inr v, s') \<Longrightarrow>
     rate_limited_get c b k w =
       (Inr v, \<lparr>s3 = s', trace = trace w @ [Sleep (1 / of_nat GET_LIMIT), GetObject b k]\<rparr>)"
  unfolding rate_limited_get_def by (rule retry_Inr) (rule get_call_eq)

lemma rate_limited_put_first:
  "put_object c (s3 w) b k body = (Inr v, s') \<Longrightarrow>
     rate_limited_put c b k body w =
       (Inr v, \<lparr>s3 = s', trace = trace w @ [Sleep (1 / of_nat GET_LIMIT), PutObject b k body]\<rparr>)"
  unfolding rate_limited_put_def by (rule retry_Inr) (rule put_call_eq)

lemma page_keys_a_dat [simp]:
  "\<not> endswith_any (lower ''a.dat'') SKIP_EXTENSIONS"
  "\<not> endswith_any (lower ''a.dat.md5'') SKIP_EXTENSIONS"
  by (simp_all add: endswith_any_def endswith_def lower_def lower_char_def SKIP_EXTENSIONS_def)

section \<open>The record that is written\<close>

text \<open>
  C1. Take a key processed successfully: the head call on the sibling key answers 404,
  the decorated get returns a response whose stream ends without an error, and the
  decorated put of the record succeeds. Then \<open>process_file\<close> returns normally with the
  upload logged; every put call it made went to the key with \<^verbatim>\<open>.md5\<close> appended and
  carried the digest, two spaces, the key and a newline as its body; the digest that
  \<open>calc_hash_md5\<close> computed by reading chunks of at most 1 MiB until the empty read is
  the reference MD5 of the concatenation of all the bytes of the stream; and it is 32
  characters long, all of them lower-case hexadecimal digits.
\<close>

theorem process_file_writes_record:
  assumes head: "head_object c (s3 w) bucket (key @ ''.md5'') = (Inl (ClientError ''404'' text), s1)"
    and get: "rate_limited_get c bucket key
                \<lparr>s3 = s1, trace = trace w @ [HeadObject bucket (key @ ''.md5'')]\<rparr> = (Inr resp, w2)"
    and eof: "failure (Body resp) = None"
    and put: "rate_limited_put c bucket (key @ ''.md5'')
                (md5_ref (stream_content (Body resp)) @ ''  '' @ key @ [CHR 0x0A]) w2 = (Inr (), w3)"
  shows "process_file c bucket key w =
           (Inr (), emit (Log INFO (''Uploaded checksum for '' @ key @ '' to '' @ key @ ''.md5'')) w3)
         \<and> (\<exists>n. 1 \<le> n \<and> n \<le> 5 \<and>
               trace w3 = trace w2 @
                 attempt_events
                   (PutObject bucket (key @ ''.md5'')
                      (md5_ref (stream_content (Body resp)) @ ''  '' @ key @ [CHR 0x0A])) 1 n)
         \<and> fst (calc_hash_md5 (Body resp) (ContentLength resp))
               = Inr (md5_ref (stream_content (Body resp)))
         \<and> length (md5_ref (stream_content (Body resp))) = 32
         \<and> set (md5_ref (stream_content (Body resp))) \<subseteq> set ''0123456789abcdef''"
proof -
  let ?body = "md5_ref (stream_content (Body resp)) @ ''  '' @ key @ [CHR 0x0A]"
  have hash: "calc_hash_md5 (Body resp) (ContentLength resp)
                = (Inr (md5_ref (stream_content (Body resp))),
                   \<lparr>total = ContentLength resp, shown = int (length (stream_content (Body resp)))\<rparr>)"
    using eof by (rule calc_hash_md5_ok)
  have w1: "emit (HeadObject bucket (key @ ''.md5'')) w\<lparr>s3 := s1\<rparr>
              = \<lparr>s3 = s1, trace = trace w @ [HeadObject bucket (key @ ''.md5'')]\<rparr>"
    by (simp add: emit_def)
  have "process_file_try c bucket key w =
          (Inr (), emit (Log INFO (''Uploaded checksum for '' @ key @ '' to '' @ key @ ''.md5'')) w3)"
    using head get put hash
    by (simp add: process_file_try_def Let_def w1 s3_emit)
  then have 1: "process_file c bucket key w =
          (Inr (), emit (Log INFO (''Uploaded checksum for '' @ key @ '' to '' @ key @ ''.md5'')) w3)"
    by (simp add: process_file_def)
  from rate_limited_put_shape [of c bucket "key @ ''.md5''" ?body w2] put
  have 2: "\<exists>n. 1 \<le> n \<and> n \<le> 5 \<and>
             trace w3 = trace w2 @ attempt_events (PutObject bucket (key @ ''.md5'') ?body) 1 n"
    by simp
  from 1 2 hash length_md5_ref set_md5_ref show ?thesis
    by simp
qed

theorem process_file_writes_record_witness:
  "process_file store_client ''bkt'' ''a.dat''
      \<lparr>s3 = \<lparr>objects = [(''a.dat'', [104, 105])], faults = []\<rparr>, trace = []\<rparr>
     = (Inr (),
        emit (Log INFO (''Uploaded checksum for '' @ ''a.dat'' @ '' to '' @ ''a.dat'' @ ''.md5''))
          \<lparr>s3 = \<lparr>objects = [(''a.dat'', [104, 105]),
                             (''a.dat.md5'', str_encode (md5_ref [104, 105] @ ''  '' @ ''a.dat'' @ [CHR 0x0A]))],
                  faults = []\<rparr>,
           trace = [HeadObject ''bkt'' ''a.dat.md5'',
                    Sleep (1 / of_nat GET_LIMIT), GetObject ''bkt'' ''a.dat'',
                    Sleep (1 / of_nat GET_LIMIT),
                    PutObject ''bkt'' ''a.dat.md5'' (md5_ref [104, 105] @ ''  '' @ ''a.dat'' @ [CHR 0x0A])]\<rparr>)
   \<and> length (md5_ref [104, 105]) = 32"
proof -
  let ?st = "\<lparr>objects = [(''a.dat'', [104, 105 :: byte])], faults = []\<rparr>"
  let ?resp = "\<lparr>Body = \<lparr>pending = [[104, 105 :: byte]], failure = None\<rparr>, ContentLength = 2\<rparr>"
  let ?w2 = "\<lparr>s3 = ?st, trace = [] @ [HeadObject ''bkt'' (''a.dat'' @ ''.md5'')]
                @ [Sleep (1 / of_nat GET_LIMIT), GetObject ''bkt'' ''a.dat'']\<rparr>"
  let ?body = "md5_ref (stream_content (Body ?resp)) @ ''  '' @ ''a.dat'' @ [CHR 0x0A]"
  let ?w3 = "\<lparr>s3 = \<lparr>objects = [(''a.dat'', [104, 105 :: byte]), (''a.dat'' @ ''.md5'', str_encode ?body)],
                       faults = []\<rparr>,
               trace = trace ?w2 @ [Sleep (1 / of_nat GET_LIMIT), PutObject ''bkt'' (''a.dat'' @ ''.md5'') ?body]\<rparr>"
  have head: "head_object store_client (s3 \<lparr>s3 = ?st, trace = []\<rparr>) ''bkt'' (''a.dat'' @ ''.md5'')
                = (Inl (ClientError ''404'' ''Not Found''), ?st)"
    by (simp add: store_head_missing)
  have get: "rate_limited_get store_client ''bkt'' ''a.dat''
               \<lparr>s3 = ?st, trace = trace \<lparr>s3 = ?st, trace = []\<rparr> @ [HeadObject ''bkt'' (''a.dat'' @ ''.md5'')]\<rparr>
               = (Inr ?resp, ?w2)"
    by (subst rate_limited_get_first [where v = ?resp and s' = ?st]) (simp_all add: store_get_found)
  have eof: "failure (Body ?resp) = None" by simp
  have put: "rate_limited_put store_client ''bkt'' (''a.dat'' @ ''.md5'') ?body ?w2 = (Inr (), ?w3)"
    by (subst rate_limited_put_first [where v = "()" and s' = "s3 ?w3"]) (simp_all add: store_put_ok)
  from process_file_writes_record [OF head get eof put]
  show ?thesis by (simp add: stream_content_def)
qed

lemma calc_hash_md5_fst:
  "fst (calc_hash_md5 st n) =
     (case failure st of None \<Rightarrow> Inr (md5_ref (stream_content st)) | Some e \<Rightarrow> Inl e)"
  by (cases "failure st") (simp_all add: calc_hash_md5_ok calc_hash_md5_fail)

lemma md5_ref_empty: "md5_ref [] = ''d41d8cd98f00b204e9800998ecf8427e''"
  by code_simp

section \<open>The digest depends on the bytes only\<close>

text \<open>
  C10. The digest that \<open>calc_hash_md5\<close> returns is determined by the bytes the stream
  delivers (and, when the stream raises, by that exception): two streams with the same
  content, cut into pieces in any way, give the same result whatever \<open>file_size\<close> is
  passed. \<open>file_size\<close> only sets the total of the progress bar.
\<close>

theorem calc_hash_md5_bytes_only:
  assumes "stream_content st1 = stream_content st2" and "failure st1 = failure st2"
  shows "fst (calc_hash_md5 st1 size1) = fst (calc_hash_md5 st2 size2)"
  using assms by (simp add: calc_hash_md5_fst split: option.splits)

theorem calc_hash_md5_bytes_only_witness:
  "stream_content \<lparr>pending = [[1, 2], [3]], failure = None\<rparr>
     = stream_content \<lparr>pending = [[1], [], [2, 3]], failure = None\<rparr>
   \<and> fst (calc_hash_md5 \<lparr>pending = [[1, 2], [3]], failure = None\<rparr> 3)
     = fst (calc_hash_md5 \<lparr>pending = [[1], [], [2, 3]], failure = None\<rparr> 700)"
  using calc_hash_md5_bytes_only
          [of "\<lparr>pending = [[1, 2], [3]], failure = None\<rparr>"
              "\<lparr>pending = [[1], [], [2, 3]], failure = None\<rparr>" 3 700]
  by (simp add: stream_content_def)

section \<open>Keys with a skipped extension are never listed\<close>

text \<open>
  C8. A key whose lower-case form ends with one of the extensions of
  \<open>SKIP_EXTENSIONS\<close> is not among the keys that \<open>list_files\<close> yields, whatever the
  letter case of the key, the pages the store returns and the way the listing ends.
\<close>

theorem list_files_skips_extensions:
  assumes "ext \<in> SKIP_EXTENSIONS" and "endswith (lower key) ext"
  shows "key \<notin> set (fst (fst (list_files s3_client bucket prefix w)))"
  using assms
  by (auto simp: list_files_def page_keys_def endswith_any_def Let_def split: prod.splits)

theorem list_files_skips_extensions_witness:
  "''.mpegindex'' \<in> SKIP_EXTENSIONS \<and> endswith (lower ''Clip.MpegIndex'') ''.mpegindex''
   \<and> ''Clip.MpegIndex'' \<notin> set (fst (fst (list_files store_client ''bkt'' ''''
         \<lparr>s3 = \<lparr>objects = [(''Clip.MpegIndex'', []), (''a.dat'', [])], faults = []\<rparr>, trace = []\<rparr>)))"
proof -
  have 1: "''.mpegindex'' \<in> SKIP_EXTENSIONS"
    by (simp add: SKIP_EXTENSIONS_def)
  have 2: "endswith (lower ''Clip.MpegIndex'') ''.mpegindex''"
    by (simp add: endswith_def lower_def lower_char_def)
  from 1 2 list_files_skips_extensions [OF 1 2] show ?thesis by blast
qed

section \<open>A key whose checksum exists is skipped\<close>

text \<open>
  C2. When \<^verbatim>\<open>head_object\<close> on the sibling key (the key with \<^verbatim>\<open>.md5\<close> appended) succeeds,
  \<open>process_file\<close> returns normally after that one call: the only events it adds are the
  head call and the log line that reports the key as skipped, so no get and no put call
  is made, and the store is left as the head call left it.
\<close>

theorem process_file_skips_existing:
  assumes "head_object s3_client (s3 w) bucket (key @ ''.md5'') = (Inr found, s1)"
  shows "process_file s3_client bucket key w =
           (Inr (), \<lparr>s3 = s1,
                     trace = trace w @
                       [HeadObject bucket (key @ ''.md5''),
                        Log INFO (''Checksum file already exists for '' @ key @ ''. Skipping.'')]\<rparr>)"
  using assms by (simp add: process_file_def process_file_try_def emit_def)

theorem process_file_skips_existing_witness:
  "head_object store_client
      (s3 \<lparr>s3 = \<lparr>objects = [(''b.dat'', [7]), (''b.dat.md5'', [8])], faults = []\<rparr>, trace = []\<rparr>)
      ''bkt'' (''b.dat'' @ ''.md5'')
     = (Inr (), \<lparr>objects = [(''b.dat'', [7]), (''b.dat.md5'', [8])], faults = []\<rparr>)
   \<and> process_file store_client ''bkt'' ''b.dat''
       \<lparr>s3 = \<lparr>objects = [(''b.dat'', [7]), (''b.dat.md5'', [8])], faults = []\<rparr>, trace = []\<rparr>
     = (Inr (), \<lparr>s3 = \<lparr>objects = [(''b.dat'', [7]), (''b.dat.md5'', [8])], faults = []\<rparr>,
                 trace = [HeadObject ''bkt'' ''b.dat.md5'',
                          Log INFO ''Checksum file already exists for b.dat. Skipping.'']\<rparr>)"
proof -
  have h: "head_object store_client
      (s3 \<lparr>s3 = \<lparr>objects = [(''b.dat'', [7]), (''b.dat.md5'', [8])], faults = []\<rparr>, trace = []\<rparr>)
      ''bkt'' (''b.dat'' @ ''.md5'')
     = (Inr (), \<lparr>objects = [(''b.dat'', [7]), (''b.dat.md5'', [8])], faults = []\<rparr>)"
    by (simp add: store_client_def store_head_def next_fault_def)
  from h process_file_skips_existing [OF h] show ?thesis by simp
qed

section \<open>A second run\<close>

text \<open>
  C3 fails on the code. The checksum objects that a run writes end in \<^verbatim>\<open>.md5\<close>, which is
  not in \<open>SKIP_EXTENSIONS\<close>, so the next run lists them as keys to process. Here the
  bucket holds the single object \<^verbatim>\<open>a.dat\<close> and the store never fails. The first run
  writes \<^verbatim>\<open>a.dat.md5\<close>. The second run, over the bucket as the first left it, skips
  \<^verbatim>\<open>a.dat\<close>, but lists \<^verbatim>\<open>a.dat.md5\<close>, finds no \<^verbatim>\<open>a.dat.md5.md5\<close> and puts one.
\<close>

theorem second_run_puts_again:
  "main store_client ''bkt'' '''' \<lparr>s3 = \<lparr>objects = [(''a.dat'', [104, 105])], faults = []\<rparr>, trace = []\<rparr>
     = (Inr (),
        \<lparr>s3 = \<lparr>objects = [(''a.dat'', [104, 105]),
                           (''a.dat.md5'', str_encode (md5_ref [104, 105] @ ''  a.dat'' @ [CHR 0x0A]))],
                faults = []\<rparr>,
         trace = [Log INFO (''Listing files in bucket bkt with prefix '' @ [CHR 0x27, CHR 0x27] @ ''...''),
                  ListObjectsV2 ''bkt'' '''', Sleep (1 / 16),
                  Log INFO ''Found 1 files to process.'',
                  HeadObject ''bkt'' ''a.dat.md5'',
                  Sleep (1 / 16), GetObject ''bkt'' ''a.dat'',
                  Sleep (1 / 16),
                  PutObject ''bkt'' ''a.dat.md5'' (md5_ref [104, 105] @ ''  a.dat'' @ [CHR 0x0A]),
                  Log INFO ''Uploaded checksum for a.dat to a.dat.md5'']\<rparr>)
   \<and> filter is_put (trace (snd (main store_client ''bkt'' ''''
         \<lparr>s3 = \<lparr>objects = [(''a.dat'', [104, 105]),
                            (''a.dat.md5'', str_encode (md5_ref [104, 105] @ ''  a.dat'' @ [CHR 0x0A]))],
                 faults = []\<rparr>,
          trace = []\<rparr>)))
     = [PutObject ''bkt'' ''a.dat.md5.md5''
          (md5_ref (str_encode (md5_ref [104, 105] @ ''  a.dat'' @ [CHR 0x0A])) @ ''  a.dat.md5'' @ [CHR 0x0A])]"
proof -
  have 1: "main store_client ''bkt'' '''' \<lparr>s3 = \<lparr>objects = [(''a.dat'', [104, 105])], faults = []\<rparr>, trace = []\<rparr>
     = (Inr (),
        \<lparr>s3 = \<lparr>objects = [(''a.dat'', [104, 105]),
                           (''a.dat.md5'', str_encode (md5_ref [104, 105] @ ''  a.dat'' @ [CHR 0x0A]))],
                faults = []\<rparr>,
         trace = [Log INFO (''Listing files in bucket bkt with prefix '' @ [CHR 0x27, CHR 0x27] @ ''...''),
                  ListObjectsV2 ''bkt'' '''', Sleep (1 / 16),
                  Log INFO ''Found 1 files to process.'',
                  HeadObject ''bkt'' ''a.dat.md5'',
                  Sleep (1 / 16), GetObject ''bkt'' ''a.dat'',
                  Sleep (1 / 16),
                  PutObject ''bkt'' ''a.dat.md5'' (md5_ref [104, 105] @ ''  a.dat'' @ [CHR 0x0A]),
                  Log INFO ''Uploaded checksum for a.dat to a.dat.md5'']\<rparr>)"
    by (simp add: main_def list_files_def page_keys_def time_sleep_def emit_def Let_def
          str_nat.simps hexdigit_def GET_LIMIT_def
          process_file_def process_file_try_def
          store_head_missing store_head_found store_get_found store_put_ok
          rate_limited_get_first rate_limited_put_first calc_hash_md5_ok stream_content_def
          store_client_def [THEN arg_cong, of paginate] store_paginate_def startswith_def)
  have 2: "filter is_put (trace (snd (main store_client ''bkt'' ''''
         \<lparr>s3 = \<lparr>objects = [(''a.dat'', [104, 105]),
                            (''a.dat.md5'', str_encode (md5_ref [104, 105] @ ''  a.dat'' @ [CHR 0x0A]))],
                 faults = []\<rparr>,
          trace = []\<rparr>)))
     = [PutObject ''bkt'' ''a.dat.md5.md5''
          (md5_ref (str_encode (md5_ref [104, 105] @ ''  a.dat'' @ [CHR 0x0A])) @ ''  a.dat.md5'' @ [CHR 0x0A])]"
    by (simp add: main_def list_files_def page_keys_def time_sleep_def emit_def Let_def
          str_nat.simps hexdigit_def GET_LIMIT_def
          process_file_def process_file_try_def
          store_head_missing store_head_found store_get_found store_put_ok
          rate_limited_get_first rate_limited_put_first calc_hash_md5_ok stream_content_def
          store_client_def [THEN arg_cong, of paginate] store_paginate_def startswith_def)
  from 1 2 show ?thesis by (rule conjI)
qed

section \<open>Which calls pass the sleep and the decorator\<close>

text \<open>
  C4, as the code has it. Every transport call of \<open>rate_limited_get\<close> and of
  \<open>rate_limited_put\<close> comes directly after a sleep of \<open>1 / GET_LIMIT\<close> seconds, and the
  decorator makes between one and five such attempts. The existence check is not
  wrapped: \<open>process_file\<close> calls \<^verbatim>\<open>head_object\<close> directly, as its first action, with no
  sleep before it, and never calls it again.
\<close>

theorem get_put_gated_head_direct:
  "(\<exists>n. 1 \<le> n \<and> n \<le> 5 \<and>
        trace (snd (rate_limited_get c b k w)) = trace w @ attempt_events (GetObject b k) 1 n)
   \<and> (\<exists>n. 1 \<le> n \<and> n \<le> 5 \<and>
        trace (snd (rate_limited_put c b k body w)) = trace w @ attempt_events (PutObject b k body) 1 n)
   \<and> (\<exists>evs. trace (snd (process_file c b k w)) = trace w @ HeadObject b (k @ ''.md5'') # evs
        \<and> filter is_head evs = [])"
  using rate_limited_get_shape [of c b k w] rate_limited_put_shape [of c b k body w]
    process_file_trace [of c b k w]
  by blast

theorem head_not_gated_counterexample:
  "process_file store_client ''bkt'' ''a.dat''
      \<lparr>s3 = \<lparr>objects = [(''a.dat'', [104, 105])], faults = [Some (ClientError ''503'' ''Slow Down'')]\<rparr>,
       trace = []\<rparr>
     = (Inr (),
        \<lparr>s3 = \<lparr>objects = [(''a.dat'', [104, 105])], faults = []\<rparr>,
         trace = [HeadObject ''bkt'' ''a.dat.md5'',
                  LogException WARNING ''Failed to process a.dat: '' (ClientError ''503'' ''Slow Down'')]\<rparr>)"
  by (simp add: process_file_def process_file_try_def emit_def store_client_def store_head_def
        next_fault_def Let_def)

section \<open>Which errors are retried\<close>

text \<open>
  C5, as the code has it. The decorator retries on the exception type
  \<^verbatim>\<open>ClientError\<close>, whatever the error code. A \<^verbatim>\<open>get_object\<close> or \<^verbatim>\<open>put_object\<close> that
  raises an exception that is not a \<^verbatim>\<open>ClientError\<close> makes the decorated call raise that
  exception after the first attempt, with one sleep, one transport call and no wait. A
  \<^verbatim>\<open>get_object\<close> or \<^verbatim>\<open>put_object\<close> that raises a \<^verbatim>\<open>ClientError\<close>, of any code and
  message (not-found, access denied and malformed request included), is retried: the
  decorated call waits one second and makes a second attempt, and whatever it ends with,
  it never hands that \<^verbatim>\<open>ClientError\<close>, or any other, to the caller as it is.
\<close>

theorem retried_iff_client_error:
  "(\<not> is_ClientError e \<and> get_object c (s3 w) b k = (Inl e, s') \<longrightarrow>
      rate_limited_get c b k w =
        (Inl e, \<lparr>s3 = s', trace = trace w @ [Sleep (1 / of_nat GET_LIMIT), GetObject b k]\<rparr>))
   \<and> (\<not> is_ClientError e \<and> put_object c (s3 w) b k body = (Inl e, s') \<longrightarrow>
      rate_limited_put c b k body w =
        (Inl e, \<lparr>s3 = s', trace = trace w @ [Sleep (1 / of_nat GET_LIMIT), PutObject b k body]\<rparr>))
   \<and> (get_object c (s3 w) b k = (Inl (ClientError code msg), s') \<longrightarrow>
      (\<exists>evs. trace (snd (rate_limited_get c b k w)) =
               trace w @ [Sleep (1 / of_nat GET_LIMIT), GetObject b k, Backoff 1,
                          Sleep (1 / of_nat GET_LIMIT), GetObject b k] @ evs)
      \<and> fst (rate_limited_get c b k w) \<noteq> Inl (ClientError code msg))
   \<and> (put_object c (s3 w) b k body = (Inl (ClientError code msg), s') \<longrightarrow>
      (\<exists>evs. trace (snd (rate_limited_put c b k body w)) =
               trace w @ [Sleep (1 / of_nat GET_LIMIT), PutObject b k body, Backoff 1,
                          Sleep (1 / of_nat GET_LIMIT), PutObject b k body] @ evs)
      \<and> fst (rate_limited_put c b k body w) \<noteq> Inl (ClientError code msg))"
proof (intro conjI impI)
  assume "\<not> is_ClientError e \<and> get_object c (s3 w) b k = (Inl e, s')"
  then show "rate_limited_get c b k w =
        (Inl e, \<lparr>s3 = s', trace = trace w @ [Sleep (1 / of_nat GET_LIMIT), GetObject b k]\<rparr>)"
    unfolding rate_limited_get_def by (intro retry_other get_call_eq) simp_all
next
  assume "\<not> is_ClientError e \<and> put_object c (s3 w) b k body = (Inl e, s')"
  then show "rate_limited_put c b k body w =
        (Inl e, \<lparr>s3 = s', trace = trace w @ [Sleep (1 / of_nat GET_LIMIT), PutObject b k body]\<rparr>)"
    unfolding rate_limited_put_def by (intro retry_other put_call_eq) simp_all
next
  assume "get_object c (s3 w) b k = (Inl (ClientError code msg), s')"
  from get_call_eq [OF this]
  show "\<exists>evs. trace (snd (rate_limited_get c b k w)) =
               trace w @ [Sleep (1 / of_nat GET_LIMIT), GetObject b k, Backoff 1,
                          Sleep (1 / of_nat GET_LIMIT), GetObject b k] @ evs"
    unfolding rate_limited_get_def
    by (intro retry_second_attempt [where e = "ClientError code msg"] trace_get_call) simp_all
next
  show "fst (rate_limited_get c b k w) \<noteq> Inl (ClientError code msg)"
    unfolding rate_limited_get_def by (rule retry_never_client_error)
next
  assume "put_object c (s3 w) b k body = (Inl (ClientError code msg), s')"
  from put_call_eq [OF this]
  show "\<exists>evs. trace (snd (rate_limited_put c b k body w)) =
               trace w @ [Sleep (1 / of_nat GET_LIMIT), PutObject b k body, Backoff 1,
                          Sleep (1 / of_nat GET_LIMIT), PutObject b k body] @ evs"
    unfolding rate_limited_put_def
    by (intro retry_second_attempt [where e = "ClientError code msg"] trace_put_call) simp_all
next
  show "fst (rate_limited_put c b k body w) \<noteq> Inl (ClientError code msg)"
    unfolding rate_limited_put_def by (rule retry_never_client_error)
qed

theorem retried_iff_client_error_witness:
  "rate_limited_get store_client ''bkt'' ''a.dat''
        \<lparr>s3 = \<lparr>objects = [(''a.dat'', [104, 105])], faults = [Some (OtherError ''Connection reset'')]\<rparr>,
         trace = []\<rparr>
      = (Inl (OtherError ''Connection reset''),
         \<lparr>s3 = \<lparr>objects = [(''a.dat'', [104, 105])], faults = []\<rparr>,
          trace = [Sleep (1 / of_nat GET_LIMIT), GetObject ''bkt'' ''a.dat'']\<rparr>)
   \<and> rate_limited_put store_client ''bkt'' ''a.dat'' ''x''
        \<lparr>s3 = \<lparr>objects = [(''a.dat'', [104, 105])], faults = [Some (OtherError ''Connection reset'')]\<rparr>,
         trace = []\<rparr>
      = (Inl (OtherError ''Connection reset''),
         \<lparr>s3 = \<lparr>objects = [(''a.dat'', [104, 105])], faults = []\<rparr>,
          trace = [Sleep (1 / of_nat GET_LIMIT), PutObject ''bkt'' ''a.dat'' ''x'']\<rparr>)
   \<and> (\<exists>evs. trace (snd (rate_limited_get store_client ''bkt'' ''a.dat''
               \<lparr>s3 = \<lparr>objects = [(''a.dat'', [104, 105])],
                       faults = [Some (ClientError ''AccessDenied'' ''Access Denied'')]\<rparr>,
                trace = []\<rparr>)) =
               [] @ [Sleep (1 / of_nat GET_LIMIT), GetObject ''bkt'' ''a.dat'', Backoff 1,
                     Sleep (1 / of_nat GET_LIMIT), GetObject ''bkt'' ''a.dat''] @ evs)
   \<and> fst (rate_limited_get store_client ''bkt'' ''a.dat''
               \<lparr>s3 = \<lparr>objects = [(''a.dat'', [104, 105])],
                       faults = [Some (ClientError ''AccessDenied'' ''Access Denied'')]\<rparr>,
                trace = []\<rparr>) \<noteq> Inl (ClientError ''AccessDenied'' ''Access Denied'')
   \<and> (\<exists>evs. trace (snd (rate_limited_put store_client ''bkt'' ''a.dat'' ''x''
               \<lparr>s3 = \<lparr>objects = [(''a.dat'', [104, 105])],
                       faults = [Some (ClientError ''400'' ''Bad Request'')]\<rparr>,
                trace = []\<rparr>)) =
               [] @ [Sleep (1 / of_nat GET_LIMIT), PutObject ''bkt'' ''a.dat'' ''x'', Backoff 1,
                     Sleep (1 / of_nat GET_LIMIT), PutObject ''bkt'' ''a.dat'' ''x''] @ evs)
   \<and> fst (rate_limited_put store_client ''bkt'' ''a.dat'' ''x''
               \<lparr>s3 = \<lparr>objects = [(''a.dat'', [104, 105])],
                       faults = [Some (ClientError ''400'' ''Bad Request'')]\<rparr>,
                trace = []\<rparr>) \<noteq> Inl (ClientError ''400'' ''Bad Request'')"
proof -
  let ?st = "\<lparr>objects = [(''a.dat'', [104, 105 :: byte])], faults = []\<rparr>"
  note other = retried_iff_client_error
      [where e = "OtherError ''Connection reset''" and c = store_client and b = "''bkt''"
         and k = "''a.dat''" and body = "''x''" and s' = ?st
         and w = "\<lparr>s3 = \<lparr>objects = [(''a.dat'', [104, 105])],
                              faults = [Some (OtherError ''Connection reset'')]\<rparr>, trace = []\<rparr>"]
  note denied = retried_iff_client_error
      [where code = "''AccessDenied''" and msg = "''Access Denied''" and c = store_client
         and b = "''bkt''" and k = "''a.dat''" and s' = ?st
         and w = "\<lparr>s3 = \<lparr>objects = [(''a.dat'', [104, 105])],
                              faults = [Some (ClientError ''AccessDenied'' ''Access Denied'')]\<rparr>,
                      trace = []\<rparr>",
       THEN conjunct2, THEN conjunct2, THEN conjunct1]
  note bad = retried_iff_client_error
      [where code = "''400''" and msg = "''Bad Request''" and c = store_client
         and b = "''bkt''" and k = "''a.dat''" and body = "''x''" and s' = ?st
         and w = "\<lparr>s3 = \<lparr>objects = [(''a.dat'', [104, 105])],
                              faults = [Some (ClientError ''400'' ''Bad Request'')]\<rparr>,
                      trace = []\<rparr>",
       THEN conjunct2, THEN conjunct2, THEN conjunct2]
  from other denied bad show ?thesis
    by (simp add: store_faults_get store_faults_put)
qed

theorem not_found_retried_counterexample:
  "rate_limited_get store_client ''bkt'' ''missing.dat'' \<lparr>s3 = \<lparr>objects = [], faults = []\<rparr>, trace = []\<rparr>
     = (Inl (RetryError (ClientError ''NoSuchKey'' ''The specified key does not exist.'')),
        \<lparr>s3 = \<lparr>objects = [], faults = []\<rparr>, trace = five_attempts (GetObject ''bkt'' ''missing.dat'')\<rparr>)"
  by (simp add: rate_limited_get_def retry.simps get_call_def time_sleep_def emit_def
        stop_after_attempt_def wait_exponential_def five_attempts_def store_client_def
        store_get_def next_fault_def Let_def)

section \<open>Five attempts\<close>

text \<open>
  C7, as the code has it. A \<^verbatim>\<open>get_object\<close> or \<^verbatim>\<open>put_object\<close> that raises
  \<^verbatim>\<open>ClientError\<close> four times and succeeds the fifth time makes the decorated call return
  that result after exactly five transport calls. When the fifth call raises
  \<^verbatim>\<open>ClientError\<close> too, the decorated call has made exactly five transport calls and
  raises \<^verbatim>\<open>RetryError\<close>, which wraps the error of the fifth attempt; the error itself
  is not what the caller receives.
\<close>

theorem retry_five_attempts:
  "(get_results c b k 5 (s3 w) =
      ([Inl (ClientError c1 t1), Inl (ClientError c2 t2), Inl (ClientError c3 t3),
        Inl (ClientError c4 t4), Inr resp], s') \<longrightarrow>
    rate_limited_get c b k w =
      (Inr resp, \<lparr>s3 = s', trace = trace w @ five_attempts (GetObject b k)\<rparr>))
   \<and> (get_results c b k 5 (s3 w) =
      ([Inl (ClientError c1 t1), Inl (ClientError c2 t2), Inl (ClientError c3 t3),
        Inl (ClientError c4 t4), Inl (ClientError c5 t5)], s') \<longrightarrow>
    rate_limited_get c b k w =
      (Inl (RetryError (ClientError c5 t5)),
       \<lparr>s3 = s', trace = trace w @ five_attempts (GetObject b k)\<rparr>))
   \<and> (put_results c b k body 5 (s3 w) =
      ([Inl (ClientError c1 t1), Inl (ClientError c2 t2), Inl (ClientError c3 t3),
        Inl (ClientError c4 t4), Inr ()], s') \<longrightarrow>
    rate_limited_put c b k body w =
      (Inr (), \<lparr>s3 = s', trace = trace w @ five_attempts (PutObject b k body)\<rparr>))
   \<and> (put_results c b k body 5 (s3 w) =
      ([Inl (ClientError c1 t1), Inl (ClientError c2 t2), Inl (ClientError c3 t3),
        Inl (ClientError c4 t4), Inl (ClientError c5 t5)], s') \<longrightarrow>
    rate_limited_put c b k body w =
      (Inl (RetryError (ClientError c5 t5)),
       \<lparr>s3 = s', trace = trace w @ five_attempts (PutObject b k body)\<rparr>))"
proof (intro conjI impI)
  assume "get_results c b k 5 (s3 w) =
      ([Inl (ClientError c1 t1), Inl (ClientError c2 t2), Inl (ClientError c3 t3),
        Inl (ClientError c4 t4), Inr resp], s')"
  from rate_limited_get_five [OF this]
  show "rate_limited_get c b k w =
      (Inr resp, \<lparr>s3 = s', trace = trace w @ five_attempts (GetObject b k)\<rparr>)"
    by simp
next
  assume "get_results c b k 5 (s3 w) =
      ([Inl (ClientError c1 t1), Inl (ClientError c2 t2), Inl (ClientError c3 t3),
        Inl (ClientError c4 t4), Inl (ClientError c5 t5)], s')"
  from rate_limited_get_five [OF this]
  show "rate_limited_get c b k w =
      (Inl (RetryError (ClientError c5 t5)),
       \<lparr>s3 = s', trace = trace w @ five_attempts (GetObject b k)\<rparr>)"
    by simp
next
  assume "put_results c b k body 5 (s3 w) =
      ([Inl (ClientError c1 t1), Inl (ClientError c2 t2), Inl (ClientError c3 t3),
        Inl (ClientError c4 t4), Inr ()], s')"
  from rate_limited_put_five [OF this]
  show "rate_limited_put c b k body w =
      (Inr (), \<lparr>s3 = s', trace = trace w @ five_attempts (PutObject b k body)\<rparr>)"
    by simp
next
  assume "put_results c b k body 5 (s3 w) =
      ([Inl (ClientError c1 t1), Inl (ClientError c2 t2), Inl (ClientError c3 t3),
        Inl (ClientError c4 t4), Inl (ClientError c5 t5)], s')"
  from rate_limited_put_five [OF this]
  show "rate_limited_put c b k body w =
      (Inl (RetryError (ClientError c5 t5)),
       \<lparr>s3 = s', trace = trace w @ five_attempts (PutObject b k body)\<rparr>)"
    by simp
qed

theorem retry_five_attempts_witness:
  "rate_limited_get store_client ''bkt'' ''a.dat''
      \<lparr>s3 = \<lparr>objects = [(''a.dat'', [104, 105])],
              faults = [Some (ClientError ''503'' ''Slow Down 1''), Some (ClientError ''503'' ''Slow Down 2''), Some (ClientError ''503'' ''Slow Down 3''), Some (ClientError ''503'' ''Slow Down 4'')]\<rparr>, trace = []\<rparr>
     = (Inr \<lparr>Body = \<lparr>pending = [[104, 105]], failure = None\<rparr>, ContentLength = 2\<rparr>,
        \<lparr>s3 = \<lparr>objects = [(''a.dat'', [104, 105])], faults = []\<rparr>,
         trace = [] @ five_attempts (GetObject ''bkt'' ''a.dat'')\<rparr>)
   \<and> rate_limited_get store_client ''bkt'' ''a.dat''
      \<lparr>s3 = \<lparr>objects = [(''a.dat'', [104, 105])],
              faults = [Some (ClientError ''503'' ''Slow Down 1''), Some (ClientError ''503'' ''Slow Down 2''), Some (ClientError ''503'' ''Slow Down 3''), Some (ClientError ''503'' ''Slow Down 4''), Some (ClientError ''503'' ''Slow Down 5'')]\<rparr>, trace = []\<rparr>
     = (Inl (RetryError (ClientError ''503'' ''Slow Down 5'')),
        \<lparr>s3 = \<lparr>objects = [(''a.dat'', [104, 105])], faults = []\<rparr>,
         trace = [] @ five_attempts (GetObject ''bkt'' ''a.dat'')\<rparr>)
   \<and> rate_limited_put store_client ''bkt'' ''a.dat.md5'' ''x''
      \<lparr>s3 = \<lparr>objects = [],
              faults = [Some (ClientError ''503'' ''Slow Down 1''), Some (ClientError ''503'' ''Slow Down 2''), Some (ClientError ''503'' ''Slow Down 3''), Some (ClientError ''503'' ''Slow Down 4'')]\<rparr>, trace = []\<rparr>
     = (Inr (),
        \<lparr>s3 = \<lparr>objects = [(''a.dat.md5'', str_encode ''x'')], faults = []\<rparr>,
         trace = [] @ five_attempts (PutObject ''bkt'' ''a.dat.md5'' ''x'')\<rparr>)
   \<and> rate_limited_put store_client ''bkt'' ''a.dat.md5'' ''x''
      \<lparr>s3 = \<lparr>objects = [],
              faults = [Some (ClientError ''503'' ''Slow Down 1''), Some (ClientError ''503'' ''Slow Down 2''), Some (ClientError ''503'' ''Slow Down 3''), Some (ClientError ''503'' ''Slow Down 4''), Some (ClientError ''503'' ''Slow Down 5'')]\<rparr>, trace = []\<rparr>
     = (Inl (RetryError (ClientError ''503'' ''Slow Down 5'')),
        \<lparr>s3 = \<lparr>objects = [], faults = []\<rparr>,
         trace = [] @ five_attempts (PutObject ''bkt'' ''a.dat.md5'' ''x'')\<rparr>)"
proof -
  have g4: "get_results store_client ''bkt'' ''a.dat'' 5
      (s3 \<lparr>s3 = \<lparr>objects = [(''a.dat'', [104, 105])],
              faults = [Some (ClientError ''503'' ''Slow Down 1''), Some (ClientError ''503'' ''Slow Down 2''), Some (ClientError ''503'' ''Slow Down 3''), Some (ClientError ''503'' ''Slow Down 4'')]\<rparr>, trace = []\<rparr>)
     = ([Inl (ClientError ''503'' ''Slow Down 1''), Inl (ClientError ''503'' ''Slow Down 2''),
         Inl (ClientError ''503'' ''Slow Down 3''), Inl (ClientError ''503'' ''Slow Down 4''),
         Inr \<lparr>Body = \<lparr>pending = [[104, 105]], failure = None\<rparr>, ContentLength = 2\<rparr>],
        \<lparr>objects = [(''a.dat'', [104, 105])], faults = []\<rparr>)"
    by (simp add: eval_nat_numeral store_faults_get)
       (simp add: store_client_def store_get_def next_fault_def)
  have g5: "get_results store_client ''bkt'' ''a.dat'' 5
      (s3 \<lparr>s3 = \<lparr>objects = [(''a.dat'', [104, 105])],
              faults = [Some (ClientError ''503'' ''Slow Down 1''), Some (ClientError ''503'' ''Slow Down 2''), Some (ClientError ''503'' ''Slow Down 3''), Some (ClientError ''503'' ''Slow Down 4''), Some (ClientError ''503'' ''Slow Down 5'')]\<rparr>, trace = []\<rparr>)
     = ([Inl (ClientError ''503'' ''Slow Down 1''), Inl (ClientError ''503'' ''Slow Down 2''),
         Inl (ClientError ''503'' ''Slow Down 3''), Inl (ClientError ''503'' ''Slow Down 4''),
         Inl (ClientError ''503'' ''Slow Down 5'')],
        \<lparr>objects = [(''a.dat'', [104, 105])], faults = []\<rparr>)"
    by (simp add: eval_nat_numeral store_faults_get)
  have p4: "put_results store_client ''bkt'' ''a.dat.md5'' ''x'' 5
      (s3 \<lparr>s3 = \<lparr>objects = [],
              faults = [Some (ClientError ''503'' ''Slow Down 1''), Some (ClientError ''503'' ''Slow Down 2''), Some (ClientError ''503'' ''Slow Down 3''), Some (ClientError ''503'' ''Slow Down 4'')]\<rparr>, trace = []\<rparr>)
     = ([Inl (ClientError ''503'' ''Slow Down 1''), Inl (ClientError ''503'' ''Slow Down 2''),
         Inl (ClientError ''503'' ''Slow Down 3''), Inl (ClientError ''503'' ''Slow Down 4''),
         Inr ()],
        \<lparr>objects = [(''a.dat.md5'', str_encode ''x'')], faults = []\<rparr>)"
    by (simp add: eval_nat_numeral store_faults_put)
       (simp add: store_client_def store_put_def next_fault_def)
  have p5: "put_results store_client ''bkt'' ''a.dat.md5'' ''x'' 5
      (s3 \<lparr>s3 = \<lparr>objects = [],
              faults = [Some (ClientError ''503'' ''Slow Down 1''), Some (ClientError ''503'' ''Slow Down 2''), Some (ClientError ''503'' ''Slow Down 3''), Some (ClientError ''503'' ''Slow Down 4''), Some (ClientError ''503'' ''Slow Down 5'')]\<rparr>, trace = []\<rparr>)
     = ([Inl (ClientError ''503'' ''Slow Down 1''), Inl (ClientError ''503'' ''Slow Down 2''),
         Inl (ClientError ''503'' ''Slow Down 3''), Inl (ClientError ''503'' ''Slow Down 4''),
         Inl (ClientError ''503'' ''Slow Down 5'')],
        \<lparr>objects = [], faults = []\<rparr>)"
    by (simp add: eval_nat_numeral store_faults_put)
  from retry_five_attempts [THEN conjunct1, rule_format, OF g4]
       retry_five_attempts [THEN conjunct2, THEN conjunct1, rule_format, OF g5]
       retry_five_attempts [THEN conjunct2, THEN conjunct2, THEN conjunct1, rule_format, OF p4]
       retry_five_attempts [THEN conjunct2, THEN conjunct2, THEN conjunct2, rule_format, OF p5]
  show ?thesis by simp
qed

theorem retry_exhausted_counterexample:
  "fst (rate_limited_get store_client ''bkt'' ''a.dat''
      \<lparr>s3 = \<lparr>objects = [(''a.dat'', [104, 105])],
              faults = [Some (ClientError ''503'' ''Slow Down 1''), Some (ClientError ''503'' ''Slow Down 2''), Some (ClientError ''503'' ''Slow Down 3''), Some (ClientError ''503'' ''Slow Down 4''), Some (ClientError ''503'' ''Slow Down 5'')]\<rparr>, trace = []\<rparr>)
     = Inl (RetryError (ClientError ''503'' ''Slow Down 5''))
   \<and> fst (rate_limited_get store_client ''bkt'' ''a.dat''
      \<lparr>s3 = \<lparr>objects = [(''a.dat'', [104, 105])],
              faults = [Some (ClientError ''503'' ''Slow Down 1''), Some (ClientError ''503'' ''Slow Down 2''), Some (ClientError ''503'' ''Slow Down 3''), Some (ClientError ''503'' ''Slow Down 4''), Some (ClientError ''503'' ''Slow Down 5'')]\<rparr>, trace = []\<rparr>)
     \<noteq> Inl (ClientError ''503'' ''Slow Down 5'')"
  by (simp add: rate_limited_get_def retry.simps get_call_def time_sleep_def emit_def
        stop_after_attempt_def store_faults_get Let_def)

section \<open>What the handler of process_file catches\<close>




section \<open>Callers at the same time\<close>

text \<open>
  C6 fails on the code. The limiter is a \<^verbatim>\<open>time.sleep(1 / GET_LIMIT)\<close> inside each call;
  nothing is shared between callers, so the time at which a caller is granted its
  acquisition depends on that caller's own start alone. The pool runs as many workers as
  the machine has cores unless told otherwise. Here two workers call
  \<open>rate_limited_get\<close>, for two keys of one bucket, at time 0, and no step takes longer
  than it must: each is granted its acquisition, and issues its transport call, at
  \<open>1 / 16\<close> s, so the two acquisitions in order of time lie 0 s apart, not
  \<open>1 / GET_LIMIT\<close>.
\<close>

theorem concurrent_callers_unspaced:
  "grants no_lag 0 0 (trace (snd (rate_limited_get store_client ''bkt'' ''a.dat''
        \<lparr>s3 = \<lparr>objects = [(''a.dat'', [104, 105]), (''b.dat'', [106])], faults = []\<rparr>, trace = []\<rparr>)))
     = [1 / 16]
   \<and> grants no_lag 0 0 (trace (snd (rate_limited_get store_client ''bkt'' ''b.dat''
        \<lparr>s3 = \<lparr>objects = [(''a.dat'', [104, 105]), (''b.dat'', [106])], faults = []\<rparr>, trace = []\<rparr>)))
     = [1 / 16]
   \<and> \<not> spaced (1 / of_nat GET_LIMIT)
        (sort (grants no_lag 0 0 (trace (snd (rate_limited_get store_client ''bkt'' ''a.dat''
                 \<lparr>s3 = \<lparr>objects = [(''a.dat'', [104, 105]), (''b.dat'', [106])], faults = []\<rparr>, trace = []\<rparr>)))
              @ grants no_lag 0 0 (trace (snd (rate_limited_get store_client ''bkt'' ''b.dat''
                 \<lparr>s3 = \<lparr>objects = [(''a.dat'', [104, 105]), (''b.dat'', [106])], faults = []\<rparr>, trace = []\<rparr>)))))"
  by (simp add: rate_limited_get_first store_get_found no_lag_def Let_def GET_LIMIT_def)

end
